theory Spec2Isabelle
  imports Complex_Main "HOL-Library.AList" "HOL-Library.Log_Nat"
begin

section \<open>Data model\<close>

text \<open>
  The program is Python. A \<^verbatim>\<open>dict\<close> keeps its keys in insertion order and holds each
  key once, so a dict is an association list whose keys are distinct; \<^verbatim>\<open>d[k]\<close> is
  \<^const>\<open>map_of\<close>, \<^verbatim>\<open>d[k] = v\<close> is \<^const>\<open>AList.update\<close> (the value is replaced in
  place, a new key goes to the end). Metric values are Python floats: a finite double
  is a rational number, so a sample is a \<open>rat\<close>. Storing samples involves no
  arithmetic; the arithmetic of the mean is the subject of the section on double
  arithmetic. Exceptions are values of the type \<open>error\<close>, and a function that can
  raise returns \<open>error + 'a\<close>.
\<close>

datatype error =
    ZeroDivisionError
  | AttributeError string
  | TypeError
  | KeyError string
  | UnboundLocalError string
  | OverflowError

type_synonym 'v dict = "(string \<times> 'v) list"

type_synonym StepResult = "rat dict"

type_synonym History = "rat list dict"

section \<open>History\<close>

text \<open>
  \<^verbatim>\<open>
  def log_dict(self, data, prefix=""):
      for name, value in data.items():
          name = prefix+name
          if name in self.keys():
              self[name].append(value)
          else:
              self[name] = [value]
  \<close>
  \<open>log_item\<close> is the body of the loop, \<open>log_dict\<close> the loop over \<^verbatim>\<open>data.items()\<close>.
  The method mutates \<^verbatim>\<open>self\<close>; the model returns the new history.
\<close>

fun log_item :: "string \<Rightarrow> History \<Rightarrow> string \<times> rat \<Rightarrow> History" where
  "log_item prefix self (name, value) =
     (let name = prefix @ name in
      case map_of self name of
        Some values \<Rightarrow> AList.update name (values @ [value]) self
      | None \<Rightarrow> AList.update name [value] self)"

definition log_dict :: "History \<Rightarrow> StepResult \<Rightarrow> string \<Rightarrow> History" where
  "log_dict self data prefix = foldl (log_item prefix) self data"

text \<open>
  \<^verbatim>\<open>
  def aggregate(self, agg_fn=lambda x: sum(x)/len(x)):
      return {name:agg_fn(values) for name, values in self.items()}
  \<close>
  \<open>py_sum\<close> is the builtin \<^verbatim>\<open>sum\<close> (a left fold from 0), \<open>mean\<close> the default
  \<^verbatim>\<open>agg_fn\<close>: the division raises \<^verbatim>\<open>ZeroDivisionError\<close> when \<^verbatim>\<open>len(x)\<close> is 0.
  The comprehension stops at the first exception. \<open>py_sum\<close> and \<open>mean\<close> compute in
  exact arithmetic, without the rounding of doubles: they serve the statements on
  keys, on the lengths of series and on errors, none of which depends on the
  arithmetic. The value that \<^verbatim>\<open>aggregate\<close> returns is treated with \<open>float_mean\<close>, and
  what the call leaves in \<^verbatim>\<open>self\<close> with \<open>aggregate_run\<close>, both below.
\<close>

definition py_sum :: "rat list \<Rightarrow> rat" where
  "py_sum x = foldl (+) 0 x"

definition mean :: "rat list \<Rightarrow> error + rat" where
  "mean x = (if length x = 0 then Inl ZeroDivisionError
             else Inr (py_sum x / of_nat (length x)))"

fun aggregate :: "History \<Rightarrow> (rat list \<Rightarrow> error + 'a) \<Rightarrow> error + 'a dict" where
  "aggregate [] agg_fn = Inr []"
| "aggregate ((name, values) # rest) agg_fn =
     (case agg_fn values of
        Inl e \<Rightarrow> Inl e
      | Inr v \<Rightarrow> (case aggregate rest agg_fn of
                   Inl e \<Rightarrow> Inl e
                 | Inr agg_data \<Rightarrow> Inr ((name, v) # agg_data)))"

text \<open>A sequence of \<^verbatim>\<open>log_dict\<close> calls on one history, each with its data and prefix.\<close>

fun log_calls :: "History \<Rightarrow> (StepResult \<times> string) list \<Rightarrow> History" where
  "log_calls self [] = self"
| "log_calls self ((data, prefix) # calls) = log_calls (log_dict self data prefix) calls"

text \<open>The values that a sequence of calls logs under one key, in the order of logging.\<close>

definition logged :: "StepResult \<Rightarrow> string \<Rightarrow> string \<Rightarrow> rat list" where
  "logged data prefix key = map snd (filter (\<lambda>(name, value). prefix @ name = key) data)"

definition logged_calls :: "(StepResult \<times> string) list \<Rightarrow> string \<Rightarrow> rat list" where
  "logged_calls calls key = concat (map (\<lambda>(data, prefix). logged data prefix key) calls)"

definition series :: "History \<Rightarrow> string \<Rightarrow> rat list" where
  "series self key = (case map_of self key of None \<Rightarrow> [] | Some values \<Rightarrow> values)"

section \<open>Double arithmetic\<close>

text \<open>
  The samples of a series are Python floats, that is IEEE 754 binary64 numbers, and
  \<^verbatim>\<open>sum(x)/len(x)\<close> computes in that arithmetic. A finite double is a rational; the
  result of an operation is the exact result rounded to the nearest double, ties to the
  even significand, and a result beyond the largest double is an infinity.
  \<open>round_double\<close> is that rounding: \<open>ilog2\<close> is the binary exponent, the unit in the
  last place is \<open>2 ^ (e - 52)\<close>, and no smaller than \<open>2 ^ (- 1074)\<close> (subnormal numbers).
  The sign of zero is not kept. \<open>float_sum\<close> is the builtin \<^verbatim>\<open>sum\<close> of the interpreter
  that the notebook names (Python 3.8): it starts from the integer 0 and adds the
  samples from left to right, rounding every partial sum. \<open>float_mean\<close> is the default
  \<^verbatim>\<open>agg_fn\<close> in this arithmetic: \<^verbatim>\<open>len(x)\<close> is converted to a double, which raises
  \<^verbatim>\<open>OverflowError\<close> for an integer beyond the doubles, and the sum is divided by it.
  A stored sample is taken to be a finite double.
\<close>

datatype pyfloat = Finite rat | PosInf | NegInf | NaN

definition pow2 :: "int \<Rightarrow> rat" where
  "pow2 k = (if 0 \<le> k then 2 ^ nat k else 1 / 2 ^ nat (- k))"

definition round_half_even :: "rat \<Rightarrow> int" where
  "round_half_even x =
     (let f = \<lfloor>x\<rfloor>; r = x - of_int f
      in if r < 1 / 2 then f else if 1 / 2 < r then f + 1 else if even f then f else f + 1)"

definition ilog2 :: "rat \<Rightarrow> int" where
  "ilog2 x =
     (let (p, q) = quotient_of x; d = bitlen p - bitlen q
      in if pow2 d \<le> x then d else d - 1)"

definition round_double :: "rat \<Rightarrow> pyfloat" where
  "round_double x =
     (if x = 0 then Finite 0
      else
        let a = \<bar>x\<bar>;
            u = max (ilog2 a) (- 1022) - 52;
            n = round_half_even (a / pow2 u)
        in if 1024 < bitlen n + u then (if 0 < x then PosInf else NegInf)
           else Finite (if 0 < x then of_int n * pow2 u else - (of_int n * pow2 u)))"

fun float_add :: "pyfloat \<Rightarrow> pyfloat \<Rightarrow> pyfloat" where
  "float_add (Finite a) (Finite b) = round_double (a + b)"
| "float_add NaN y = NaN"
| "float_add x NaN = NaN"
| "float_add PosInf NegInf = NaN"
| "float_add NegInf PosInf = NaN"
| "float_add PosInf y = PosInf"
| "float_add NegInf y = NegInf"
| "float_add x PosInf = PosInf"
| "float_add x NegInf = NegInf"

text \<open>Division by a positive finite double, as the length of a non-empty list is.\<close>

fun float_div :: "pyfloat \<Rightarrow> rat \<Rightarrow> pyfloat" where
  "float_div (Finite a) d = round_double (a / d)"
| "float_div PosInf d = PosInf"
| "float_div NegInf d = NegInf"
| "float_div NaN d = NaN"

definition float_sum :: "rat list \<Rightarrow> pyfloat" where
  "float_sum x = foldl float_add (Finite 0) (map Finite x)"

definition float_mean :: "rat list \<Rightarrow> error + pyfloat" where
  "float_mean x =
     (if length x = 0 then Inl ZeroDivisionError
      else case round_double (of_nat (length x)) of
             Finite n \<Rightarrow> Inr (float_div (float_sum x) n)
           | _ \<Rightarrow> Inl OverflowError)"

text \<open>
  \<open>is_double x\<close>: the rational \<open>x\<close> is a double. \<open>no_rounding x\<close>: the mean of the series
  \<open>x\<close> is computed without any rounding, because every partial sum and the quotient
  are doubles.
\<close>

definition is_double :: "rat \<Rightarrow> bool" where
  "is_double x \<longleftrightarrow> round_double x = Finite x"

fun partial_sums :: "rat \<Rightarrow> rat list \<Rightarrow> rat list" where
  "partial_sums acc [] = []"
| "partial_sums acc (v # x) = (acc + v) # partial_sums (acc + v) x"

definition no_rounding :: "rat list \<Rightarrow> bool" where
  "no_rounding x \<longleftrightarrow>
     list_all is_double (partial_sums 0 x) \<and> is_double (sum_list x / of_nat (length x))"

text \<open>
  \<open>aggregate_run\<close> is the comprehension of \<^verbatim>\<open>aggregate\<close> once more, with the history as
  state: \<^verbatim>\<open>agg_fn\<close> is handed the list object of a series and may change it, so here it
  returns, besides its result, the list as it leaves it, and \<open>aggregate_run\<close> returns the
  history as the call leaves it. The comprehension itself assigns nothing to
  \<^verbatim>\<open>self\<close>. The default \<^verbatim>\<open>agg_fn\<close> calls \<^verbatim>\<open>sum\<close> and \<^verbatim>\<open>len\<close>, which only read their
  argument.
\<close>

fun aggregate_run ::
  "History \<Rightarrow> (rat list \<Rightarrow> (error + 'a) \<times> rat list) \<Rightarrow> (error + 'a dict) \<times> History" where
  "aggregate_run [] agg_fn = (Inr [], [])"
| "aggregate_run ((name, values) # rest) agg_fn =
     (case agg_fn values of
        (Inl e, values') \<Rightarrow> (Inl e, (name, values') # rest)
      | (Inr v, values') \<Rightarrow>
          (case aggregate_run rest agg_fn of
             (Inl e, rest') \<Rightarrow> (Inl e, (name, values') # rest')
           | (Inr agg_data, rest') \<Rightarrow> (Inr ((name, v) # agg_data), (name, values') # rest')))"

section \<open>Module\<close>

text \<open>
  \<^verbatim>\<open>Module\<close> extends PyTorch's \<^verbatim>\<open>nn.Module\<close>. What the framework supplies is a
  parameter of the model: \<open>weights\<close> stands for everything the optimizer changes,
  \<open>training\<close> for the mode that \<^verbatim>\<open>self.train()\<close> and \<^verbatim>\<open>self.eval()\<close> set,
  \<open>forward\<close> for \<^verbatim>\<open>self(inputs)\<close>. The three attributes that \<^verbatim>\<open>compile\<close> stores
  default to \<^verbatim>\<open>None\<close> and are options. An optimizer is the effect on the weights
  of \<^verbatim>\<open>zero_grad()\<close>, \<^verbatim>\<open>loss.backward()\<close> and \<^verbatim>\<open>step()\<close> for one batch. A metrics
  object (a \<^verbatim>\<open>torchmetrics.MetricCollection\<close>) has a state, is called on outputs and
  labels (\<open>compute\<close>: the items of the mapping it returns, and its new state) and has
  \<^verbatim>\<open>reset()\<close>. A data loader is the finite list of its batches, a batch a pair of
  inputs and labels. The progress bar is output only and is left out, and so is
  \<^verbatim>\<open>torch.no_grad()\<close>, which changes nothing but the framework's gradient tracking.
\<close>

record ('m, 'o, 'l) MetricCollection =
  mstate :: 'm
  compute :: "'m \<Rightarrow> 'o \<Rightarrow> 'l \<Rightarrow> (string \<times> rat) list \<times> 'm"
  reset :: "'m \<Rightarrow> 'm"

record ('w, 'i, 'l, 'o, 'm) Module =
  weights :: 'w
  training :: bool
  forward :: "'w \<Rightarrow> bool \<Rightarrow> 'i \<Rightarrow> 'o"
  loss_fn :: "('o \<Rightarrow> 'l \<Rightarrow> rat) option"
  optimizer :: "('w \<Rightarrow> 'i \<Rightarrow> 'l \<Rightarrow> 'w) option"
  metrics :: "('m, 'o, 'l) MetricCollection option"

text \<open>
  \<^verbatim>\<open>
  def compile(self, loss=None, optimizer=None, metrics=None):
      self.loss_fn = loss
      self.optimizer = optimizer
      self.metrics = metrics
  \<close>
\<close>

definition compile ::
  "('w, 'i, 'l, 'o, 'm) Module \<Rightarrow> ('o \<Rightarrow> 'l \<Rightarrow> rat) option \<Rightarrow> ('w \<Rightarrow> 'i \<Rightarrow> 'l \<Rightarrow> 'w) option \<Rightarrow>
   ('m, 'o, 'l) MetricCollection option \<Rightarrow> ('w, 'i, 'l, 'o, 'm) Module" where
  "compile self loss opt mets = self\<lparr>loss_fn := loss, optimizer := opt, metrics := mets\<rparr>"

text \<open>
  A dict comprehension inserts its items one by one into a new dict:
  \<^verbatim>\<open>{name:value.item() for name, value in metrics.items()}\<close>.
\<close>

definition dict_of_items :: "(string \<times> 'v) list \<Rightarrow> 'v dict" where
  "dict_of_items items = foldl (\<lambda>d (name, value). AList.update name value d) [] items"

text \<open>
  \<^verbatim>\<open>
  def train_step(self, batch):
      inputs, labels = batch
      self.optimizer.zero_grad()
      outputs = self(inputs)
      loss = self.loss_fn(outputs, labels)
      loss.backward()
      self.optimizer.step()
      if self.metrics is not None:
          metrics = self.metrics(outputs, labels)
          metrics = {name:value.item() for name, value in metrics.items()}
          metrics['Loss'] = loss.item()
      else:
          metrics = {'Loss':loss.item()}
      return metrics
  \<close>
  \<^verbatim>\<open>self.optimizer.zero_grad()\<close> raises \<^verbatim>\<open>AttributeError\<close> when the optimizer is
  \<^verbatim>\<open>None\<close>, and calling a loss that is \<^verbatim>\<open>None\<close> raises \<^verbatim>\<open>TypeError\<close>.
\<close>

fun train_step ::
  "('w, 'i, 'l, 'o, 'm) Module \<Rightarrow> 'i \<times> 'l \<Rightarrow> error + (StepResult \<times> ('w, 'i, 'l, 'o, 'm) Module)" where
  "train_step self (inputs, labels) =
     (case optimizer self of
        None \<Rightarrow> Inl (AttributeError ''zero_grad'')
      | Some opt \<Rightarrow>
          let outputs = forward self (weights self) (training self) inputs in
          (case loss_fn self of
             None \<Rightarrow> Inl TypeError
           | Some lf \<Rightarrow>
               let loss = lf outputs labels;
                   self = self\<lparr>weights := opt (weights self) inputs labels\<rparr>
               in (case metrics self of
                     Some mc \<Rightarrow>
                       let (items, st) = compute mc (mstate mc) outputs labels;
                           self = self\<lparr>metrics := Some (mc\<lparr>mstate := st\<rparr>)\<rparr>;
                           step_metrics = dict_of_items items;
                           step_metrics = AList.update ''Loss'' loss step_metrics
                       in Inr (step_metrics, self)
                   | None \<Rightarrow> Inr ([(''Loss'', loss)], self))))"

text \<open>
  \<^verbatim>\<open>
  def validation_step(self, batch):
      inputs, labels = batch
      outputs = self(inputs)
      loss = self.loss_fn(outputs, labels)
      if self.metrics is not None:
          metrics = self.metrics(outputs, labels)
          metrics = {name:value.item() for name, value in metrics.items()}
          metrics['Loss'] = loss.item()
      else:
          metrics = {'Loss':loss.item()}
      return metrics
  \<close>
\<close>

fun validation_step ::
  "('w, 'i, 'l, 'o, 'm) Module \<Rightarrow> 'i \<times> 'l \<Rightarrow> error + (StepResult \<times> ('w, 'i, 'l, 'o, 'm) Module)" where
  "validation_step self (inputs, labels) =
     (let outputs = forward self (weights self) (training self) inputs in
      case loss_fn self of
        None \<Rightarrow> Inl TypeError
      | Some lf \<Rightarrow>
          let loss = lf outputs labels in
          (case metrics self of
             Some mc \<Rightarrow>
               let (items, st) = compute mc (mstate mc) outputs labels;
                   self = self\<lparr>metrics := Some (mc\<lparr>mstate := st\<rparr>)\<rparr>;
                   step_metrics = dict_of_items items;
                   step_metrics = AList.update ''Loss'' loss step_metrics
               in Inr (step_metrics, self)
           | None \<Rightarrow> Inr ([(''Loss'', loss)], self)))"

subsection \<open>fit\<close>

text \<open>
  \<^verbatim>\<open>
  def fit(self, trainloader, epochs, validationloader=None):
      history_epoch = History()
      for epoch in tqdm(range(epochs), desc='Epochs', position=0):
          self.train()
          pbar = tqdm(enumerate(trainloader), total=len(trainloader), position=1, leave=False)
          history_batch = History()
          for batch_idx, batch in pbar:
              batch_metrics = self.train_step(batch)
              history_batch.log_dict(batch_metrics)
              pbar.set_description(get_pbar_description_from_batch_metrics(batch_metrics))
          if validationloader is not None:
              self.eval()
              pbar = tqdm(enumerate(validationloader), total=len(validationloader), position=2, leave=False)
              for batch_idx, batch in pbar:
                  with torch.no_grad():
                      batch_metrics = self.validation_step(batch)
                  history_batch.log_dict(batch_metrics, prefix='Val_')
                  pbar.set_description(get_pbar_description_from_batch_metrics(batch_metrics, 'Val_'))
          self.metrics.reset()
          history_epoch.log_dict(history_batch.aggregate())
      return history_epoch
  \<close>
  \<open>train_batches\<close> and \<open>validation_batches\<close> are the two inner loops, \<open>metrics_reset\<close>
  is \<^verbatim>\<open>self.metrics.reset()\<close> (an \<^verbatim>\<open>AttributeError\<close> when the metrics are
  \<^verbatim>\<open>None\<close>), \<open>fit_epoch\<close> is the body of the outer loop and \<open>fit_epochs\<close> the outer
  loop. \<^verbatim>\<open>range(epochs)\<close> is empty for \<^verbatim>\<open>epochs <= 0\<close>. Besides the history the
  model returns the module as the call leaves it.
\<close>

fun train_batches ::
  "('w, 'i, 'l, 'o, 'm) Module \<Rightarrow> History \<Rightarrow> ('i \<times> 'l) list \<Rightarrow>
   error + (History \<times> ('w, 'i, 'l, 'o, 'm) Module)" where
  "train_batches self history_batch [] = Inr (history_batch, self)"
| "train_batches self history_batch (batch # rest) =
     (case train_step self batch of
        Inl e \<Rightarrow> Inl e
      | Inr (batch_metrics, self) \<Rightarrow>
          train_batches self (log_dict history_batch batch_metrics '''') rest)"

fun validation_batches ::
  "('w, 'i, 'l, 'o, 'm) Module \<Rightarrow> History \<Rightarrow> ('i \<times> 'l) list \<Rightarrow>
   error + (History \<times> ('w, 'i, 'l, 'o, 'm) Module)" where
  "validation_batches self history_batch [] = Inr (history_batch, self)"
| "validation_batches self history_batch (batch # rest) =
     (case validation_step self batch of
        Inl e \<Rightarrow> Inl e
      | Inr (batch_metrics, self) \<Rightarrow>
          validation_batches self (log_dict history_batch batch_metrics ''Val_'') rest)"

definition metrics_reset ::
  "('w, 'i, 'l, 'o, 'm) Module \<Rightarrow> error + ('w, 'i, 'l, 'o, 'm) Module" where
  "metrics_reset self =
     (case metrics self of
        None \<Rightarrow> Inl (AttributeError ''reset'')
      | Some mc \<Rightarrow> Inr (self\<lparr>metrics := Some (mc\<lparr>mstate := reset mc (mstate mc)\<rparr>)\<rparr>))"

definition fit_epoch ::
  "('w, 'i, 'l, 'o, 'm) Module \<Rightarrow> History \<Rightarrow> ('i \<times> 'l) list \<Rightarrow> ('i \<times> 'l) list option \<Rightarrow>
   error + (History \<times> ('w, 'i, 'l, 'o, 'm) Module)" where
  "fit_epoch self history_epoch trainloader validationloader =
     (case train_batches (self\<lparr>training := True\<rparr>) [] trainloader of
        Inl e \<Rightarrow> Inl e
      | Inr (history_batch, self) \<Rightarrow>
          (case (case validationloader of
                   None \<Rightarrow> Inr (history_batch, self)
                 | Some vl \<Rightarrow> validation_batches (self\<lparr>training := False\<rparr>) history_batch vl) of
             Inl e \<Rightarrow> Inl e
           | Inr (history_batch, self) \<Rightarrow>
               (case metrics_reset self of
                  Inl e \<Rightarrow> Inl e
                | Inr self \<Rightarrow>
                    (case aggregate history_batch mean of
                       Inl e \<Rightarrow> Inl e
                     | Inr agg_data \<Rightarrow> Inr (log_dict history_epoch agg_data '''', self)))))"

fun fit_epochs ::
  "('w, 'i, 'l, 'o, 'm) Module \<Rightarrow> History \<Rightarrow> ('i \<times> 'l) list \<Rightarrow> nat \<Rightarrow> ('i \<times> 'l) list option \<Rightarrow>
   error + (History \<times> ('w, 'i, 'l, 'o, 'm) Module)" where
  "fit_epochs self history_epoch trainloader 0 validationloader = Inr (history_epoch, self)"
| "fit_epochs self history_epoch trainloader (Suc n) validationloader =
     (case fit_epoch self history_epoch trainloader validationloader of
        Inl e \<Rightarrow> Inl e
      | Inr (history_epoch, self) \<Rightarrow> fit_epochs self history_epoch trainloader n validationloader)"

definition fit ::
  "('w, 'i, 'l, 'o, 'm) Module \<Rightarrow> ('i \<times> 'l) list \<Rightarrow> int \<Rightarrow> ('i \<times> 'l) list option \<Rightarrow>
   error + (History \<times> ('w, 'i, 'l, 'o, 'm) Module)" where
  "fit self trainloader epochs validationloader =
     fit_epochs self [] trainloader (nat epochs) validationloader"

subsection \<open>evaluate\<close>

text \<open>
  \<^verbatim>\<open>
  def evaluate(self, dataloader):
      self.eval()
      for i, batch in tqdm(enumerate(dataloader), total=len(dataloader)):
          if i == 0:
              results = self.validation_step(batch)
              results = {name:[value] for name, value in results.items()}
          else:
              result = self.validation_step(batch)
              for name, value in result.items():
                  results[name].append(value)
      results = {name:sum(values)/len(values) for name,values in results.items()}
      return results
  \<close>
  The local variable \<^verbatim>\<open>results\<close> is bound by the first iteration only, so it is an
  option: reading it while it is \<open>None\<close> is Python's \<^verbatim>\<open>UnboundLocalError\<close>.
  \<open>append_values\<close> is the inner loop (\<^verbatim>\<open>results[name]\<close> raises \<^verbatim>\<open>KeyError\<close> for a
  name that \<^verbatim>\<open>results\<close> does not hold), \<open>evaluate_loop\<close> the loop over the batches
  and \<open>mean_values\<close> the last comprehension.
\<close>

fun append_values :: "rat list dict option \<Rightarrow> (string \<times> rat) list \<Rightarrow> error + rat list dict option" where
  "append_values results [] = Inr results"
| "append_values None ((name, value) # rest) = Inl (UnboundLocalError ''results'')"
| "append_values (Some results) ((name, value) # rest) =
     (case map_of results name of
        None \<Rightarrow> Inl (KeyError name)
      | Some values \<Rightarrow> append_values (Some (AList.update name (values @ [value]) results)) rest)"

fun evaluate_loop ::
  "('w, 'i, 'l, 'o, 'm) Module \<Rightarrow> nat \<Rightarrow> rat list dict option \<Rightarrow> ('i \<times> 'l) list \<Rightarrow>
   error + (rat list dict option \<times> ('w, 'i, 'l, 'o, 'm) Module)" where
  "evaluate_loop self i results [] = Inr (results, self)"
| "evaluate_loop self i results (batch # rest) =
     (if i = 0 then
        (case validation_step self batch of
           Inl e \<Rightarrow> Inl e
         | Inr (results, self) \<Rightarrow>
             evaluate_loop self (Suc i) (Some (map (\<lambda>(name, value). (name, [value])) results)) rest)
      else
        (case validation_step self batch of
           Inl e \<Rightarrow> Inl e
         | Inr (result, self) \<Rightarrow>
             (case append_values results result of
                Inl e \<Rightarrow> Inl e
              | Inr results \<Rightarrow> evaluate_loop self (Suc i) results rest)))"

fun mean_values :: "rat list dict \<Rightarrow> error + rat dict" where
  "mean_values [] = Inr []"
| "mean_values ((name, values) # rest) =
     (if length values = 0 then Inl ZeroDivisionError
      else (case mean_values rest of
              Inl e \<Rightarrow> Inl e
            | Inr results \<Rightarrow> Inr ((name, py_sum values / of_nat (length values)) # results)))"

definition evaluate ::
  "('w, 'i, 'l, 'o, 'm) Module \<Rightarrow> ('i \<times> 'l) list \<Rightarrow> error + (rat dict \<times> ('w, 'i, 'l, 'o, 'm) Module)" where
  "evaluate self dataloader =
     (case evaluate_loop (self\<lparr>training := False\<rparr>) 0 None dataloader of
        Inl e \<Rightarrow> Inl e
      | Inr (results, self) \<Rightarrow>
          (case results of
             None \<Rightarrow> Inl (UnboundLocalError ''results'')
           | Some results \<Rightarrow>
               (case mean_values results of
                  Inl e \<Rightarrow> Inl e
                | Inr results \<Rightarrow> Inr (results, self))))"

text \<open>
  The reference computation for \<^verbatim>\<open>evaluate\<close>, following the specification's words, not
  the code: switch to evaluation mode, iterate the data source once, invoke
  \<^verbatim>\<open>validation_step\<close> per batch, accumulate each result into a fresh history with no
  prefix, and return the mean-aggregated result.
\<close>

fun accumulate_steps ::
  "('w, 'i, 'l, 'o, 'm) Module \<Rightarrow> History \<Rightarrow> ('i \<times> 'l) list \<Rightarrow>
   error + (History \<times> ('w, 'i, 'l, 'o, 'm) Module)" where
  "accumulate_steps self history [] = Inr (history, self)"
| "accumulate_steps self history (batch # rest) =
     (case validation_step self batch of
        Inl e \<Rightarrow> Inl e
      | Inr (step_result, self) \<Rightarrow> accumulate_steps self (log_dict history step_result '''') rest)"

definition evaluate_reference ::
  "('w, 'i, 'l, 'o, 'm) Module \<Rightarrow> ('i \<times> 'l) list \<Rightarrow> error + (rat dict \<times> ('w, 'i, 'l, 'o, 'm) Module)" where
  "evaluate_reference self dataloader =
     (case accumulate_steps (self\<lparr>training := False\<rparr>) [] dataloader of
        Inl e \<Rightarrow> Inl e
      | Inr (history, self) \<Rightarrow>
          (case aggregate history mean of
             Inl e \<Rightarrow> Inl e
           | Inr agg_data \<Rightarrow> Inr (agg_data, self)))"

section \<open>Auxiliary notions for the statements\<close>

text \<open>
  The specification asks that every step result of a run carries the same set of
  names. With the step functions above the names are \<^verbatim>\<open>'Loss'\<close> and those the metrics
  object reports, so \<open>step_names self names\<close> says: whatever the metrics object is
  called on, a step of this module returns exactly the keys \<open>names\<close>. Without a
  metrics object that set is \<^verbatim>\<open>{'Loss'}\<close>.
\<close>

definition step_names :: "('w, 'i, 'l, 'o, 'm) Module \<Rightarrow> string set \<Rightarrow> bool" where
  "step_names self names \<longleftrightarrow>
     (case metrics self of
        None \<Rightarrow> names = {''Loss''}
      | Some mc \<Rightarrow>
          (\<forall>st outputs labels.
             insert ''Loss'' (fst ` set (fst (compute mc st outputs labels))) = names))"

text \<open>A history as \<open>log_dict\<close> leaves it: each key once, no series empty.\<close>

definition logged_history :: "History \<Rightarrow> bool" where
  "logged_history self \<longleftrightarrow> distinct (map fst self) \<and> (\<forall>(name, values) \<in> set self. values \<noteq> [])"

text \<open>
  The keys that one epoch of \<open>fit\<close> logs when every step returns the keys \<open>names\<close>:
  the names themselves if there is a training batch, the names prefixed with
  \<^verbatim>\<open>'Val_'\<close> if there is a validation batch.
\<close>

definition epoch_keys :: "string set \<Rightarrow> 'b list \<Rightarrow> 'b list option \<Rightarrow> string set" where
  "epoch_keys names trainloader validationloader =
     (if trainloader = [] then {} else names) \<union>
     (case validationloader of
        None \<Rightarrow> {}
      | Some vl \<Rightarrow> if vl = [] then {} else (\<lambda>name. ''Val_'' @ name) ` names)"

text \<open>
  \<open>configured\<close>: \<^verbatim>\<open>compile\<close> has stored a loss, an optimizer and a metrics object.
  \<open>epoch_history self n keys\<close>: an epoch-level history after \<open>n\<close> epochs that all logged
  the keys \<open>keys\<close>: each of these keys once, with one value per epoch, and no other key.
\<close>

definition configured :: "('w, 'i, 'l, 'o, 'm) Module \<Rightarrow> bool" where
  "configured self \<longleftrightarrow> loss_fn self \<noteq> None \<and> optimizer self \<noteq> None \<and> metrics self \<noteq> None"

definition epoch_history :: "History \<Rightarrow> nat \<Rightarrow> string set \<Rightarrow> bool" where
  "epoch_history self n keys \<longleftrightarrow>
     distinct (map fst self) \<and> (\<forall>(name, values) \<in> set self. length values = n) \<and>
     fst ` set self = (if n = 0 then {} else keys)"

section \<open>Example modules\<close>

text \<open>
  Concrete modules on which the functions are evaluated: the network returns its input,
  the loss is the distance between output and label, the optimizer counts its steps, and
  the metrics object \<open>accuracy\<close> reports one metric and counts its calls. \<open>plain_module\<close>
  is compiled without metrics (the default of \<^verbatim>\<open>compile\<close>), \<open>metered_module\<close> with
  \<open>accuracy\<close>, \<open>quiet_module\<close> with a collection that holds no metric.
\<close>

definition identity_net :: "nat \<Rightarrow> bool \<Rightarrow> rat \<Rightarrow> rat" where
  "identity_net w mode inputs = inputs"

definition abs_loss :: "rat \<Rightarrow> rat \<Rightarrow> rat" where
  "abs_loss outputs labels = \<bar>outputs - labels\<bar>"

definition count_steps :: "nat \<Rightarrow> rat \<Rightarrow> rat \<Rightarrow> nat" where
  "count_steps w inputs labels = Suc w"

definition hit_rate :: "nat \<Rightarrow> rat \<Rightarrow> rat \<Rightarrow> (string \<times> rat) list \<times> nat" where
  "hit_rate st outputs labels = ([(''Accuracy'', if outputs = labels then 1 else 0)], Suc st)"

definition no_rate :: "nat \<Rightarrow> rat \<Rightarrow> rat \<Rightarrow> (string \<times> rat) list \<times> nat" where
  "no_rate st outputs labels = ([], Suc st)"

definition clear :: "nat \<Rightarrow> nat" where
  "clear st = 0"

definition accuracy :: "(nat, rat, rat) MetricCollection" where
  "accuracy = \<lparr>mstate = 0, compute = hit_rate, reset = clear\<rparr>"

definition no_metric :: "(nat, rat, rat) MetricCollection" where
  "no_metric = \<lparr>mstate = 0, compute = no_rate, reset = clear\<rparr>"

definition bare_module :: "(nat, rat, rat, rat, nat) Module" where
  "bare_module = \<lparr>weights = 0, training = False, forward = identity_net,
                   loss_fn = None, optimizer = None, metrics = None\<rparr>"

definition plain_module :: "(nat, rat, rat, rat, nat) Module" where
  "plain_module = compile bare_module (Some abs_loss) (Some count_steps) None"

definition metered_module :: "(nat, rat, rat, rat, nat) Module" where
  "metered_module = compile bare_module (Some abs_loss) (Some count_steps) (Some accuracy)"

definition quiet_module :: "(nat, rat, rat, rat, nat) Module" where
  "quiet_module = compile bare_module (Some abs_loss) (Some count_steps) (Some no_metric)"

text \<open>
  \<open>uneven_module\<close> has a metrics object that reports its metric on some calls only, so
  its step results do not all carry the same names.
\<close>

definition uneven_rate :: "nat \<Rightarrow> rat \<Rightarrow> rat \<Rightarrow> (string \<times> rat) list \<times> nat" where
  "uneven_rate st outputs labels = (if outputs = labels then [(''Accuracy'', 1)] else [], Suc st)"

definition uneven_metric :: "(nat, rat, rat) MetricCollection" where
  "uneven_metric = \<lparr>mstate = 0, compute = uneven_rate, reset = clear\<rparr>"

definition uneven_module :: "(nat, rat, rat, rat, nat) Module" where
  "uneven_module = compile bare_module (Some abs_loss) (Some count_steps) (Some uneven_metric)"

text \<open>What a call returns or raises, without the module it leaves behind.\<close>

definition returned :: "error + ('a \<times> 'b) \<Rightarrow> error + 'a" where
  "returned r = (case r of Inl e \<Rightarrow> Inl e | Inr (h, self) \<Rightarrow> Inr h)"

section \<open>Logging\<close>

lemma map_of_log_item:
  "map_of (log_item prefix self (name, value)) key =
     (if key = prefix @ name then Some (series self key @ [value]) else map_of self key)"
  by (simp add: series_def update_conv' split: option.splits)

lemma map_of_log_dict:
  "map_of (log_dict self data prefix) key =
     (if logged data prefix key = [] then map_of self key
      else Some (series self key @ logged data prefix key))"
  unfolding log_dict_def
proof (induction data arbitrary: self)
  case Nil
  then show ?case by (simp add: logged_def)
next
  case (Cons entry data)
  obtain name v where entry: "entry = (name, v)" by (cases entry)
  show ?case
    unfolding foldl_Cons Cons.IH entry
    by (simp add: map_of_log_item logged_def series_def del: log_item.simps)
qed

lemma series_log_dict:
  "series (log_dict self data prefix) key = series self key @ logged data prefix key"
  by (simp add: series_def map_of_log_dict split: option.splits)

lemma map_of_log_calls:
  "map_of (log_calls self calls) key =
     (if logged_calls calls key = [] then map_of self key
      else Some (series self key @ logged_calls calls key))"
proof (induction calls arbitrary: self)
  case Nil
  then show ?case by (simp add: logged_calls_def)
next
  case (Cons c calls)
  obtain data prefix where c: "c = (data, prefix)" by (cases c)
  show ?case
    unfolding c log_calls.simps Cons.IH
    by (simp add: logged_calls_def map_of_log_dict series_log_dict)
qed

lemma length_logged_calls:
  "length (logged_calls calls key) =
     sum_list (map (\<lambda>(data, prefix). length (filter (\<lambda>(name, value). prefix @ name = key) data)) calls)"
  by (induction calls) (auto simp: logged_calls_def logged_def)

lemma series_log_calls_empty: "series (log_calls [] calls) key = logged_calls calls key"
  by (simp add: series_def map_of_log_calls)

lemma key_log_calls_empty:
  "key \<in> fst ` set (log_calls [] calls) \<longleftrightarrow> logged_calls calls key \<noteq> []"
proof -
  have "key \<in> fst ` set (log_calls [] calls) \<longleftrightarrow> map_of (log_calls [] calls) key \<noteq> None"
    by (simp add: map_of_eq_None_iff)
  then show ?thesis by (simp add: map_of_log_calls)
qed

lemma log_item_stored:
  "map_of (log_item prefix self (name, value)) (prefix @ name) =
     Some (case map_of self (prefix @ name) of Some values \<Rightarrow> values @ [value] | None \<Rightarrow> [value])"
  by (simp add: update_conv' split: option.splits)

lemma log_item_other:
  "key \<noteq> prefix @ name \<Longrightarrow> map_of (log_item prefix self (name, value)) key = map_of self key"
  by (simp add: map_of_log_item del: log_item.simps)

lemma log_calls_prefix_example:
  "log_calls [] [([(''Loss'', 1)], ''''), ([(''Loss'', 2)], ''Val_'')] =
     [(''Loss'', [1]), (''Val_Loss'', [2])]"
  by (simp add: log_dict_def)

text \<open>
  Claim C1. One logged entry \<open>(name, value)\<close> is stored under \<open>prefix @ name\<close>: an
  existing series gets the value appended at its end, a missing key gets the singleton
  series, and no other key changes. Hence, for every sequence of \<open>log_dict\<close> calls on
  a fresh history, the series of a key holds the values logged under exactly that key
  in order, its length is the number of logged entries whose prefix and name make up
  that key, and a key is present exactly when some entry was logged under it. Logging
  \<^verbatim>\<open>{"Loss": 1.0}\<close> with no prefix and \<^verbatim>\<open>{"Loss": 2.0}\<close> with prefix \<^verbatim>\<open>"Val_"\<close> gives
  the two keys \<^verbatim>\<open>"Loss"\<close> and \<^verbatim>\<open>"Val_Loss"\<close> with one sample each.
\<close>

theorem log_dict_series_count:
  "map_of (log_item prefix self (name, value)) (prefix @ name) =
     Some (case map_of self (prefix @ name) of Some values \<Rightarrow> values @ [value] | None \<Rightarrow> [value])
   \<and> (key \<noteq> prefix @ name \<longrightarrow> map_of (log_item prefix self (name, value)) key = map_of self key)
   \<and> series (log_calls [] calls) key = logged_calls calls key
   \<and> length (series (log_calls [] calls) key) =
       sum_list (map (\<lambda>(data, prefix). length (filter (\<lambda>(name, value). prefix @ name = key) data)) calls)
   \<and> (key \<in> fst ` set (log_calls [] calls) \<longleftrightarrow> logged_calls calls key \<noteq> [])
   \<and> log_calls [] [([(''Loss'', 1)], ''''), ([(''Loss'', 2)], ''Val_'')] =
       [(''Loss'', [1]), (''Val_Loss'', [2])]"
proof (intro conjI impI)
  show "map_of (log_item prefix self (name, value)) (prefix @ name) =
     Some (case map_of self (prefix @ name) of Some values \<Rightarrow> values @ [value] | None \<Rightarrow> [value])"
    by (rule log_item_stored)
  show "map_of (log_item prefix self (name, value)) key = map_of self key" if "key \<noteq> prefix @ name"
    using that by (rule log_item_other)
  show "series (log_calls [] calls) key = logged_calls calls key"
    by (rule series_log_calls_empty)
  show "length (series (log_calls [] calls) key) =
       sum_list (map (\<lambda>(data, prefix). length (filter (\<lambda>(name, value). prefix @ name = key) data)) calls)"
    unfolding series_log_calls_empty by (rule length_logged_calls)
  show "key \<in> fst ` set (log_calls [] calls) \<longleftrightarrow> logged_calls calls key \<noteq> []"
    by (rule key_log_calls_empty)
  show "log_calls [] [([(''Loss'', 1)], ''''), ([(''Loss'', 2)], ''Val_'')] =
       [(''Loss'', [1]), (''Val_Loss'', [2])]"
    by (rule log_calls_prefix_example)
qed

theorem log_dict_series_count_witness:
  "map_of (log_item ''Val_'' [(''Loss'', [1])] (''Loss'', 2)) ''Val_Loss'' = Some [2]
   \<and> ''Loss'' \<noteq> ''Val_'' @ ''Loss''
   \<and> map_of (log_item ''Val_'' [(''Loss'', [1])] (''Loss'', 2)) ''Loss'' = Some [1]
   \<and> series (log_calls [] [([(''Loss'', 1)], ''''), ([(''Loss'', 3)], '''')]) ''Loss'' = [1, 3]
   \<and> length (series (log_calls [] [([(''Loss'', 1)], ''''), ([(''Loss'', 3)], '''')]) ''Loss'') = 2"
  using log_dict_series_count [of "''Val_''" "[(''Loss'', [1])]" "''Loss''" 2 "''Loss''"
      "[([(''Loss'', 1)], ''''), ([(''Loss'', 3)], '''')]"]
  by (simp add: logged_calls_def logged_def)

section \<open>Aggregation\<close>

lemma foldl_plus_sum_list: "foldl (+) a x = a + sum_list (x :: rat list)"
  by (induction x arbitrary: a) (simp_all add: add.assoc)

lemma py_sum_sum_list: "py_sum x = sum_list x"
  by (simp add: py_sum_def foldl_plus_sum_list)

lemma mean_nonempty: "x \<noteq> [] \<Longrightarrow> mean x = Inr (sum_list x / of_nat (length x))"
  by (simp add: mean_def py_sum_sum_list)

lemma mean_empty: "mean [] = Inl ZeroDivisionError"
  by (simp add: mean_def)

lemma aggregate_mean_nonempty:
  "\<forall>(name, values) \<in> set self. values \<noteq> [] \<Longrightarrow>
   aggregate self mean =
     Inr (map (\<lambda>(name, values). (name, sum_list values / of_nat (length values))) self)"
  by (induction self) (auto simp: mean_nonempty)

lemma aggregate_mean_empty_series:
  "(name, []) \<in> set self \<Longrightarrow> aggregate self mean = Inl ZeroDivisionError"
proof (induction self)
  case Nil
  then show ?case by simp
next
  case (Cons entry self)
  obtain n vs where entry: "entry = (n, vs)" by (cases entry)
  show ?case
  proof (cases "vs = []")
    case True
    then show ?thesis by (simp add: entry mean_empty)
  next
    case False
    with Cons entry have "aggregate self mean = Inl ZeroDivisionError" by auto
    with False show ?thesis by (simp add: entry mean_nonempty)
  qed
qed

text \<open>
  Claim C5. When the series of some key is empty, \<open>aggregate\<close> with the default mean
  raises: the division by the length 0 is Python's \<^verbatim>\<open>ZeroDivisionError\<close>, which is the
  empty-series failure of the specification. No value is returned for any key.
\<close>

theorem aggregate_empty_series_fails:
  assumes "map_of self name = Some []"
  shows "aggregate self mean = Inl ZeroDivisionError"
proof -
  from assms have "(name, []) \<in> set self" by (rule map_of_SomeD)
  then show ?thesis by (rule aggregate_mean_empty_series)
qed

theorem aggregate_empty_series_fails_witness:
  "map_of [(''Loss'', [1, 3]), (''Accuracy'', [])] ''Accuracy'' = Some []
   \<and> aggregate [(''Loss'', [1, 3]), (''Accuracy'', [])] mean = Inl ZeroDivisionError"
proof -
  have h: "map_of [(''Loss'', [1, 3]), (''Accuracy'', [])] ''Accuracy'' = Some []"
    by simp
  show ?thesis
    using h aggregate_empty_series_fails [OF h] by simp
qed

section \<open>The mean in double arithmetic\<close>

lemma quotient_of_pow2: "quotient_of ((2::rat) ^ n) = (2 ^ n, 1)"
proof -
  have "(2::rat) ^ n = of_int (2 ^ n)" by simp
  then show ?thesis by (simp only: quotient_of_int Rat.of_int_def[symmetric])
qed

lemma bitlen_one: "bitlen 1 = 1"
  by (simp add: bitlen_alt_def)

lemma bitlen_pow2_int: "bitlen ((2::int) ^ n) = int n + 1"
  using bitlen_pow2 [of 1 n] by (simp add: bitlen_one)

lemma ilog2_pow2: "ilog2 (2 ^ n) = int n"
  by (simp add: ilog2_def quotient_of_pow2 bitlen_pow2_int bitlen_one pow2_def)

lemma round_half_even_of_int: "round_half_even (of_int k) = k"
  by (simp add: round_half_even_def)

text \<open>A power of two from \<open>2 ^ 52\<close> on is a double up to \<open>2 ^ 1023\<close> and overflows beyond.\<close>

lemma round_double_pow2:
  assumes "52 \<le> n"
  shows "round_double (2 ^ n) = (if 1023 < n then PosInf else Finite (2 ^ n))"
proof -
  have u: "max (ilog2 (2 ^ n)) (- 1022) - 52 = int (n - 52)"
    using assms by (simp add: ilog2_pow2)
  have p: "pow2 (int (n - 52)) = 2 ^ (n - 52)"
    by (simp add: pow2_def)
  have q: "(2::rat) ^ n / 2 ^ (n - 52) = of_int (2 ^ 52)"
    using assms by (simp add: power_diff [symmetric])
  have r: "round_half_even ((2::rat) ^ n / 2 ^ (n - 52)) = 2 ^ 52"
    unfolding q by (rule round_half_even_of_int)
  have b: "bitlen ((2::int) ^ 52) = 53"
    using bitlen_pow2_int [of 52] by simp
  have m: "of_int (2 ^ 52) * (2::rat) ^ (n - 52) = 2 ^ n"
    using q by (simp add: field_simps)
  have z: "((2::rat) ^ n = 0) = False" and pos: "(0 < (2::rat) ^ n) = True"
    and a: "\<bar>(2::rat) ^ n\<bar> = 2 ^ n"
    by simp_all
  have "round_double (2 ^ n) =
      (if 1024 < bitlen ((2::int) ^ 52) + int (n - 52) then PosInf
       else Finite (of_int (2 ^ 52) * 2 ^ (n - 52)))"
    by (simp only: round_double_def Let_def z pos a u p r if_False if_True)
  also have "\<dots> = (if 1023 < n then PosInf else Finite (2 ^ n))"
    unfolding b m using assms by auto
  finally show ?thesis .
qed

text \<open>The length of a list of fewer than \<open>2 ^ 53\<close> samples is a double.\<close>

lemma ilog2_of_nat:
  assumes "0 < n"
  shows "ilog2 (of_nat n) = bitlen (int n) - 1"
proof -
  have q: "quotient_of (of_nat n :: rat) = (int n, 1)"
  proof -
    have "(of_nat n :: rat) = of_int (int n)" by simp
    then show ?thesis by (simp only: quotient_of_int Rat.of_int_def[symmetric])
  qed
  from assms have pos: "0 < int n" by simp
  from bitlen_bounds [OF pos] have lo: "2 ^ nat (bitlen (int n) - 1) \<le> int n" by simp
  have nn: "0 \<le> bitlen (int n) - 1"
    using pos by (simp add: bitlen_alt_def)
  have "(2::rat) ^ nat (bitlen (int n) - 1) \<le> of_nat n"
  proof -
    from lo have "(of_int (2 ^ nat (bitlen (int n) - 1)) :: rat) \<le> of_int (int n)"
      by (simp only: of_int_le_iff)
    then show ?thesis by simp
  qed
  then show ?thesis
    using nn by (simp add: ilog2_def q bitlen_one pow2_def)
qed

lemma is_double_of_nat:
  assumes "0 < n" and "n < 2 ^ 53"
  shows "is_double (of_nat n)"
proof -
  define b where "b = bitlen (int n)"
  from assms(1) have pos: "0 < int n" by simp
  from bitlen_bounds [OF pos] have lo: "2 ^ nat (b - 1) \<le> int n" and hi: "int n < 2 ^ nat b"
    by (simp_all add: b_def)
  have b1: "1 \<le> b" using pos by (simp add: b_def bitlen_alt_def)
  have b53: "b \<le> 53"
  proof (rule ccontr)
    assume "\<not> b \<le> 53"
    then have "53 \<le> nat (b - 1)" by simp
    then have "(2::int) ^ 53 \<le> 2 ^ nat (b - 1)" by (rule power_increasing) simp
    from this lo have big: "(2::int) ^ 53 \<le> int n" by (rule order_trans)
    from assms(2) have "int n < int (2 ^ 53)" by (simp only: of_nat_less_iff)
    then have "int n < 2 ^ 53" by simp
    with big show False by linarith
  qed
  define k where "k = nat (53 - b)"
  have e: "ilog2 (of_nat n) = b - 1" using ilog2_of_nat [OF assms(1)] by (simp add: b_def)
  have u: "max (ilog2 (of_nat n)) (- 1022) - 52 = - int k"
    using b1 b53 by (simp add: e k_def)
  have p: "pow2 (- int k) = 1 / 2 ^ k"
    by (cases "k = 0") (simp_all add: pow2_def)
  have q: "(of_nat n :: rat) / (1 / 2 ^ k) = of_int (int n * 2 ^ k)"
    by simp
  have r: "round_half_even ((of_nat n :: rat) / (1 / 2 ^ k)) = int n * 2 ^ k"
    unfolding q by (rule round_half_even_of_int)
  have bl: "bitlen (int n * 2 ^ k) = b + int k"
    using bitlen_pow2 [OF pos, of k] by (simp add: b_def)
  have m: "of_int (int n * 2 ^ k) * (1 / (2::rat) ^ k) = of_nat n"
    by simp
  have z: "((of_nat n :: rat) = 0) = False" and ps: "(0 < (of_nat n :: rat)) = True"
    and a: "\<bar>of_nat n :: rat\<bar> = of_nat n"
    using assms(1) by simp_all
  have "round_double (of_nat n) =
      (if 1024 < bitlen (int n * 2 ^ k) + - int k then PosInf
       else Finite (of_int (int n * 2 ^ k) * (1 / 2 ^ k)))"
    by (simp only: round_double_def Let_def z ps a u p r if_False if_True)
  also have "\<dots> = Finite (of_nat n)"
    unfolding bl m using b53 by simp
  finally show ?thesis by (simp add: is_double_def)
qed

text \<open>Without rounding, the sum and the mean are the exact ones.\<close>

lemma foldl_float_add_exact:
  assumes "list_all is_double (partial_sums acc x)"
  shows "foldl float_add (Finite acc) (map Finite x) = Finite (acc + sum_list x)"
  using assms
proof (induction x arbitrary: acc)
  case Nil
  then show ?case by simp
next
  case (Cons v x)
  from Cons.prems have d: "is_double (acc + v)"
    and rest: "list_all is_double (partial_sums (acc + v) x)"
    by simp_all
  from d have step: "round_double (acc + v) = Finite (acc + v)"
    by (simp add: is_double_def)
  from Cons.IH [OF rest] step show ?case by (simp add: add.assoc)
qed

lemma float_sum_exact: "list_all is_double (partial_sums 0 x) \<Longrightarrow> float_sum x = Finite (sum_list x)"
  using foldl_float_add_exact [of 0 x] by (simp add: float_sum_def)

lemma float_mean_value:
  assumes "x \<noteq> []" and "length x < 2 ^ 53"
  shows "float_mean x = Inr (float_div (float_sum x) (of_nat (length x)))"
proof -
  from assms have "is_double (of_nat (length x))" by (intro is_double_of_nat) simp_all
  with assms(1) show ?thesis by (simp add: float_mean_def is_double_def)
qed

lemma float_mean_exact:
  assumes "x \<noteq> []" and "length x < 2 ^ 53" and "no_rounding x"
  shows "float_mean x = Inr (Finite (sum_list x / of_nat (length x)))"
proof -
  from assms(3) have s: "float_sum x = Finite (sum_list x)"
    and q: "round_double (sum_list x / of_nat (length x)) = Finite (sum_list x / of_nat (length x))"
    by (simp_all add: no_rounding_def float_sum_exact is_double_def)
  show ?thesis
    unfolding float_mean_value [OF assms(1,2)] s by (simp add: q)
qed

lemma aggregate_float_mean_value:
  assumes "\<forall>(name, values) \<in> set self. values \<noteq> [] \<and> length values < 2 ^ 53"
  shows "aggregate self float_mean =
           Inr (map (\<lambda>(name, values).
                  (name, float_div (float_sum values) (of_nat (length values)))) self)"
  using assms by (induction self) (auto simp: float_mean_value)

lemma aggregate_float_mean_exact:
  assumes "\<forall>(name, values) \<in> set self. values \<noteq> [] \<and> length values < 2 ^ 53"
    and "\<forall>(name, values) \<in> set self. no_rounding values"
  shows "aggregate self float_mean =
           Inr (map (\<lambda>(name, values). (name, Finite (sum_list values / of_nat (length values)))) self)"
  using assms by (induction self) (auto simp: float_mean_exact)

lemma aggregate_run_reading:
  "aggregate_run self (\<lambda>values. (agg_fn values, values)) = (aggregate self agg_fn, self)"
  by (induction self) (auto split: sum.splits)

text \<open>Series on which the double mean is not the arithmetic mean.\<close>

lemma float_mean_overflow:
  "aggregate [(''Loss'', [2 ^ 1023, 2 ^ 1023])] float_mean = Inr [(''Loss'', PosInf)]"
proof -
  have a: "round_double (2 ^ 1023) = Finite (2 ^ 1023)"
    using round_double_pow2 [of 1023] by simp
  have b: "round_double (2 ^ 1023 + 2 ^ 1023) = PosInf"
    using round_double_pow2 [of 1024] by simp
  have "float_sum [2 ^ 1023, 2 ^ 1023] = PosInf"
    using a b by (simp add: float_sum_def)
  moreover have "round_double (of_nat (length [2 ^ 1023, 2 ^ 1023 :: rat])) = Finite 2"
    by code_simp
  ultimately show ?thesis
    by (simp add: float_mean_def)
qed

lemma float_mean_cancellation:
  "aggregate [(''Loss'', [10 ^ 16, 1, - (10 ^ 16)])] float_mean = Inr [(''Loss'', Finite 0)]"
  by code_simp

lemma cancellation_doubles: "is_double (10 ^ 16) \<and> is_double 1 \<and> is_double (- (10 ^ 16))"
  by code_simp

text \<open>
  The doubles nearest to 0.1, 0.2 and 0.3: the program returns 0.20000000000000004.
\<close>

lemma float_mean_tenths:
  "aggregate [(''Loss'', [3602879701896397 / 36028797018963968,
      3602879701896397 / 18014398509481984, 5404319552844595 / 18014398509481984])] float_mean
   = Inr [(''Loss'', Finite (7205759403792795 / 36028797018963968))]"
  by code_simp

text \<open>
  Claim C2 says that on a history whose series are all non-empty, \<open>aggregate\<close> with the
  default aggregation function returns for each key the arithmetic mean of its series,
  the sum of the samples divided by their number, without mutating the history. The
  program computes \<^verbatim>\<open>sum(values)/len(values)\<close> in doubles, and that is not always the
  arithmetic mean: the evaluations after the theorem give 0 for a series of doubles
  whose mean is 1/3, and an infinity for a series whose mean is a double. The
  statement proved: on a history whose series are non-empty (and shorter than
  \<open>2 ^ 53\<close>) \<open>aggregate\<close> returns, for each key in the order of the history, the sum
  of the series added from left to right in doubles, divided by the length and
  rounded; whenever no partial sum and not the quotient is rounded, that value is the
  arithmetic mean; and the call leaves the history as it was. Logging
  \<^verbatim>\<open>{"Loss": 1.0}\<close>, then \<^verbatim>\<open>{"Loss": 3.0}\<close>, and aggregating gives \<^verbatim>\<open>{"Loss": 2.0}\<close>.
\<close>

theorem aggregate_mean:
  assumes "\<forall>(name, values) \<in> set self. values \<noteq> [] \<and> length values < 2 ^ 53"
  shows "aggregate self float_mean =
           Inr (map (\<lambda>(name, values).
                  (name, float_div (float_sum values) (of_nat (length values)))) self)
       \<and> ((\<forall>(name, values) \<in> set self. no_rounding values) \<longrightarrow>
            aggregate self float_mean =
              Inr (map (\<lambda>(name, values).
                     (name, Finite (sum_list values / of_nat (length values)))) self))
       \<and> aggregate_run self (\<lambda>values. (float_mean values, values)) =
            (aggregate self float_mean, self)"
  using aggregate_float_mean_value [OF assms] aggregate_float_mean_exact [OF assms]
    aggregate_run_reading [of self float_mean]
  by blast

theorem aggregate_mean_witness:
  "log_calls [] [([(''Loss'', 1)], ''''), ([(''Loss'', 3)], '''')] = [(''Loss'', [1, 3])]
   \<and> no_rounding [1, 3]
   \<and> aggregate (log_calls [] [([(''Loss'', 1)], ''''), ([(''Loss'', 3)], '''')]) float_mean =
       Inr [(''Loss'', Finite 2)]"
proof -
  have l: "log_calls [] [([(''Loss'', 1)], ''''), ([(''Loss'', 3)], '''')] = [(''Loss'', [1, 3])]"
    by (simp add: log_dict_def)
  have n: "no_rounding [1, 3]" by code_simp
  have h: "\<forall>(name, values) \<in> set (log_calls [] [([(''Loss'', 1)], ''''), ([(''Loss'', 3)], '''')]).
      values \<noteq> [] \<and> length values < 2 ^ 53"
    unfolding l by simp
  have e: "\<forall>(name, values) \<in> set (log_calls [] [([(''Loss'', 1)], ''''), ([(''Loss'', 3)], '''')]).
      no_rounding values"
    unfolding l using n by simp
  from aggregate_mean [OF h] e
  have "aggregate (log_calls [] [([(''Loss'', 1)], ''''), ([(''Loss'', 3)], '''')]) float_mean =
      Inr (map (\<lambda>(name, values). (name, Finite (sum_list values / of_nat (length values))))
        (log_calls [] [([(''Loss'', 1)], ''''), ([(''Loss'', 3)], '''')]))"
    by blast
  then have "aggregate (log_calls [] [([(''Loss'', 1)], ''''), ([(''Loss'', 3)], '''')]) float_mean =
       Inr [(''Loss'', Finite 2)]"
    unfolding l by simp
  with l n show ?thesis by blast
qed

text \<open>
  Three doubles whose arithmetic mean is 1/3 and whose double mean is 0, as the sample
  1 is lost when it is added to \<open>10 ^ 16\<close>; and two doubles whose arithmetic mean
  \<open>2 ^ 1023\<close> is a double and whose sum overflows.
\<close>

theorem aggregate_mean_counterexample:
  "is_double (10 ^ 16) \<and> is_double 1 \<and> is_double (- (10 ^ 16))
   \<and> aggregate [(''Loss'', [10 ^ 16, 1, - (10 ^ 16)])] float_mean = Inr [(''Loss'', Finite 0)]
   \<and> sum_list [10 ^ 16, 1, - (10 ^ 16)] / of_nat (length [10 ^ 16, 1, - (10 ^ 16) :: rat]) = (1 / 3 :: rat)
   \<and> aggregate [(''Loss'', [2 ^ 1023, 2 ^ 1023])] float_mean = Inr [(''Loss'', PosInf)]"
proof -
  have "sum_list [10 ^ 16, 1, - (10 ^ 16)] / of_nat (length [10 ^ 16, 1, - (10 ^ 16) :: rat])
      = (1 / 3 :: rat)"
    by simp
  with cancellation_doubles float_mean_cancellation float_mean_overflow show ?thesis
    by blast
qed

section \<open>fit and evaluate on empty inputs\<close>

text \<open>
  Claim C8. With \<^verbatim>\<open>epochs = 0\<close> the loop body of \<open>fit\<close> never runs: whatever the module,
  its metrics and the data sources are, \<open>fit\<close> returns the empty history, raises
  nothing and leaves the module as it was.
\<close>

theorem fit_zero_epochs:
  "fit self trainloader 0 validationloader = Inr ([], self)"
  by (simp add: fit_def)

text \<open>
  Claim C10. On a data source that yields no batch, \<open>evaluate\<close> reads the variable
  \<^verbatim>\<open>results\<close> that no iteration has bound and raises \<^verbatim>\<open>UnboundLocalError\<close>; it neither
  returns an empty result nor raises the empty-series failure.
\<close>

theorem evaluate_no_batches:
  "evaluate self [] = Inl (UnboundLocalError ''results'')"
  by (simp add: evaluate_def)

section \<open>Steps\<close>

lemma foldl_update_keys:
  "fst ` set (foldl (\<lambda>d (name, value). AList.update name value d) acc items) =
     fst ` set acc \<union> fst ` set items"
proof (induction items arbitrary: acc)
  case Nil
  then show ?case by simp
next
  case (Cons item items)
  show ?case
    unfolding foldl_Cons Cons.IH by (simp add: dom_update case_prod_beta)
qed

lemma foldl_update_distinct:
  "distinct (map fst acc) \<Longrightarrow>
   distinct (map fst (foldl (\<lambda>d (name, value). AList.update name value d) acc items))"
proof (induction items arbitrary: acc)
  case Nil
  then show ?case by simp
next
  case (Cons item items)
  show ?case
    unfolding foldl_Cons
    by (rule Cons.IH) (simp add: case_prod_beta distinct_update Cons.prems)
qed

lemma keys_dict_of_items: "fst ` set (dict_of_items items) = fst ` set items"
  by (simp add: dict_of_items_def foldl_update_keys)

lemma distinct_dict_of_items: "distinct (map fst (dict_of_items items))"
  by (simp add: dict_of_items_def foldl_update_distinct)

lemma step_names_mode: "step_names (self\<lparr>training := b\<rparr>) names = step_names self names"
  by (simp add: step_names_def)

lemma validation_step_unfold:
  "validation_step self (inputs, labels) =
     (case loss_fn self of
        None \<Rightarrow> Inl TypeError
      | Some lf \<Rightarrow>
          (case metrics self of
             None \<Rightarrow> Inr ([(''Loss'', lf (forward self (weights self) (training self) inputs) labels)], self)
           | Some mc \<Rightarrow>
               Inr (AList.update ''Loss'' (lf (forward self (weights self) (training self) inputs) labels)
                      (dict_of_items (fst (compute mc (mstate mc)
                         (forward self (weights self) (training self) inputs) labels))),
                    self\<lparr>metrics := Some (mc\<lparr>mstate := snd (compute mc (mstate mc)
                         (forward self (weights self) (training self) inputs) labels)\<rparr>)\<rparr>)))"
  by (simp add: Let_def case_prod_beta split: option.split)

lemma train_step_unfold:
  "train_step self (inputs, labels) =
     (case optimizer self of
        None \<Rightarrow> Inl (AttributeError ''zero_grad'')
      | Some opt \<Rightarrow>
     (case loss_fn self of
        None \<Rightarrow> Inl TypeError
      | Some lf \<Rightarrow>
          (case metrics self of
             None \<Rightarrow> Inr ([(''Loss'', lf (forward self (weights self) (training self) inputs) labels)],
                          self\<lparr>weights := opt (weights self) inputs labels\<rparr>)
           | Some mc \<Rightarrow>
               Inr (AList.update ''Loss'' (lf (forward self (weights self) (training self) inputs) labels)
                      (dict_of_items (fst (compute mc (mstate mc)
                         (forward self (weights self) (training self) inputs) labels))),
                    self\<lparr>weights := opt (weights self) inputs labels,
                         metrics := Some (mc\<lparr>mstate := snd (compute mc (mstate mc)
                         (forward self (weights self) (training self) inputs) labels)\<rparr>)\<rparr>))))"
  by (simp add: Let_def case_prod_beta split: option.split)

lemma train_step_fields:
  assumes "train_step self batch = Inr (r, self')"
  shows "loss_fn self' = loss_fn self \<and> optimizer self' = optimizer self
         \<and> (metrics self' = None \<longleftrightarrow> metrics self = None)
         \<and> (step_names self names \<longrightarrow> step_names self' names)"
proof -
  obtain inputs labels where b: "batch = (inputs, labels)" by (cases batch)
  from assms show ?thesis
    unfolding b train_step_unfold
    by (clarsimp simp: step_names_def split: option.splits)
qed

lemma validation_step_fields:
  assumes "validation_step self batch = Inr (r, self')"
  shows "loss_fn self' = loss_fn self \<and> optimizer self' = optimizer self
         \<and> (metrics self' = None \<longleftrightarrow> metrics self = None)
         \<and> (step_names self names \<longrightarrow> step_names self' names)"
proof -
  obtain inputs labels where b: "batch = (inputs, labels)" by (cases batch)
  from assms show ?thesis
    unfolding b validation_step_unfold
    by (clarsimp simp: step_names_def split: option.splits)
qed

lemma step_result_keys:
  "fst ` set (AList.update ''Loss'' loss (dict_of_items items)) = insert ''Loss'' (fst ` set items)"
  by (simp add: dom_update keys_dict_of_items)

lemma step_result_distinct:
  "distinct (map fst (AList.update ''Loss'' loss (dict_of_items items)))"
  by (simp add: distinct_update distinct_dict_of_items)

lemma train_step_keys:
  assumes "train_step self batch = Inr (r, self')" and "step_names self names"
  shows "fst ` set r = names \<and> distinct (map fst r)"
proof -
  obtain inputs labels where b: "batch = (inputs, labels)" by (cases batch)
  from assms show ?thesis
    unfolding b train_step_unfold
    by (clarsimp simp: step_names_def step_result_keys step_result_distinct split: option.splits)
qed

lemma validation_step_keys:
  assumes "validation_step self batch = Inr (r, self')" and "step_names self names"
  shows "fst ` set r = names \<and> distinct (map fst r)"
proof -
  obtain inputs labels where b: "batch = (inputs, labels)" by (cases batch)
  from assms show ?thesis
    unfolding b validation_step_unfold
    by (clarsimp simp: step_names_def step_result_keys step_result_distinct split: option.splits)
qed

lemma train_step_returns:
  assumes "loss_fn self \<noteq> None" and "optimizer self \<noteq> None"
  shows "\<exists>r self'. train_step self batch = Inr (r, self')"
proof -
  obtain inputs labels where b: "batch = (inputs, labels)" by (cases batch)
  from assms show ?thesis
    unfolding b train_step_unfold by (auto split: option.splits)
qed

lemma validation_step_returns:
  assumes "loss_fn self \<noteq> None"
  shows "\<exists>r self'. validation_step self batch = Inr (r, self')"
proof -
  obtain inputs labels where b: "batch = (inputs, labels)" by (cases batch)
  from assms show ?thesis
    unfolding b validation_step_unfold by (auto split: option.splits)
qed

section \<open>Loops over batches\<close>

lemma train_batches_fields:
  assumes "train_batches self hb bs = Inr (hb', self')"
  shows "loss_fn self' = loss_fn self \<and> optimizer self' = optimizer self
         \<and> (metrics self' = None \<longleftrightarrow> metrics self = None)
         \<and> (step_names self names \<longrightarrow> step_names self' names)"
  using assms
proof (induction bs arbitrary: self hb)
  case Nil
  then show ?case by simp
next
  case (Cons b bs)
  from Cons.prems obtain r s1 where step: "train_step self b = Inr (r, s1)"
    and rest: "train_batches s1 (log_dict hb r '''') bs = Inr (hb', self')"
    by (auto split: sum.splits)
  from train_step_fields [OF step, of names] Cons.IH [OF rest]
  show ?case by simp
qed

lemma validation_batches_fields:
  assumes "validation_batches self hb bs = Inr (hb', self')"
  shows "loss_fn self' = loss_fn self \<and> optimizer self' = optimizer self
         \<and> (metrics self' = None \<longleftrightarrow> metrics self = None)
         \<and> (step_names self names \<longrightarrow> step_names self' names)"
  using assms
proof (induction bs arbitrary: self hb)
  case Nil
  then show ?case by simp
next
  case (Cons b bs)
  from Cons.prems obtain r s1 where step: "validation_step self b = Inr (r, s1)"
    and rest: "validation_batches s1 (log_dict hb r ''Val_'') bs = Inr (hb', self')"
    by (auto split: sum.splits)
  from validation_step_fields [OF step, of names] Cons.IH [OF rest]
  show ?case by simp
qed

lemma train_batches_returns:
  assumes "loss_fn self \<noteq> None" and "optimizer self \<noteq> None"
  shows "\<exists>hb' self'. train_batches self hb bs = Inr (hb', self')"
  using assms
proof (induction bs arbitrary: self hb)
  case Nil
  then show ?case by simp
next
  case (Cons b bs)
  from train_step_returns [OF Cons.prems] obtain r s1 where step: "train_step self b = Inr (r, s1)"
    by blast
  from train_step_fields [OF step] Cons.prems
  have "loss_fn s1 \<noteq> None" and "optimizer s1 \<noteq> None" by simp_all
  from Cons.IH [OF this] step show ?case by simp
qed

lemma validation_batches_returns:
  assumes "loss_fn self \<noteq> None"
  shows "\<exists>hb' self'. validation_batches self hb bs = Inr (hb', self')"
  using assms
proof (induction bs arbitrary: self hb)
  case Nil
  then show ?case by simp
next
  case (Cons b bs)
  from validation_step_returns [OF Cons.prems] obtain r s1
    where step: "validation_step self b = Inr (r, s1)"
    by blast
  from validation_step_fields [OF step] Cons.prems
  have "loss_fn s1 \<noteq> None" by simp
  from Cons.IH [OF this] step show ?case by simp
qed

section \<open>fit without a metrics object\<close>

lemma metrics_reset_None: "metrics self = None \<Longrightarrow> metrics_reset self = Inl (AttributeError ''reset'')"
  by (simp add: metrics_reset_def)

lemma fit_epoch_no_metrics:
  assumes "metrics self = None"
  shows "\<exists>e. fit_epoch self he trl vl = Inl e"
proof (cases "train_batches (self\<lparr>training := True\<rparr>) [] trl")
  case (Inl e)
  then show ?thesis by (simp add: fit_epoch_def)
next
  case (Inr p)
  obtain hb s1 where p: "p = (hb, s1)" by (cases p)
  from train_batches_fields [OF Inr [unfolded p]] assms have m1: "metrics s1 = None" by simp
  show ?thesis
  proof (cases vl)
    case None
    with Inr p m1 show ?thesis by (simp add: fit_epoch_def metrics_reset_None)
  next
    case (Some v)
    show ?thesis
    proof (cases "validation_batches (s1\<lparr>training := False\<rparr>) hb v")
      case (Inl e)
      with \<open>train_batches (self\<lparr>training := True\<rparr>) [] trl = Inr p\<close> p Some
      show ?thesis by (simp add: fit_epoch_def)
    next
      case r: (Inr q)
      obtain hb2 s2 where q: "q = (hb2, s2)" by (cases q)
      from validation_batches_fields [OF r [unfolded q]] m1 have "metrics s2 = None" by simp
      with Inr p Some r q
      show ?thesis by (simp add: fit_epoch_def metrics_reset_None)
    qed
  qed
qed

lemma fit_epoch_no_metrics_reset:
  assumes "metrics self = None" and "loss_fn self \<noteq> None" and "optimizer self \<noteq> None"
  shows "fit_epoch self he trl vl = Inl (AttributeError ''reset'')"
proof -
  from train_batches_returns [of "self\<lparr>training := True\<rparr>" "[]" trl] assms
  obtain hb s1 where t: "train_batches (self\<lparr>training := True\<rparr>) [] trl = Inr (hb, s1)"
    by auto
  from train_batches_fields [OF t] assms
  have m1: "metrics s1 = None" and l1: "loss_fn s1 \<noteq> None" by simp_all
  show ?thesis
  proof (cases vl)
    case None
    with t m1 show ?thesis by (simp add: fit_epoch_def metrics_reset_None)
  next
    case (Some v)
    from validation_batches_returns [of "s1\<lparr>training := False\<rparr>" hb v] l1
    obtain hb2 s2 where v: "validation_batches (s1\<lparr>training := False\<rparr>) hb v = Inr (hb2, s2)"
      by auto
    from validation_batches_fields [OF v] m1 have "metrics s2 = None" by simp
    with t Some v show ?thesis by (simp add: fit_epoch_def metrics_reset_None)
  qed
qed

lemma fit_no_metrics:
  assumes "metrics self = None" and "0 < epochs"
  shows "\<exists>e. fit self trl epochs vl = Inl e"
proof -
  from assms(2) obtain n where n: "nat epochs = Suc n" by (cases "nat epochs") auto
  from fit_epoch_no_metrics [OF assms(1)] obtain e where "fit_epoch self [] trl vl = Inl e"
    by blast
  then show ?thesis by (simp add: fit_def n)
qed

lemma fit_no_metrics_reset:
  assumes "metrics self = None" and "loss_fn self \<noteq> None" and "optimizer self \<noteq> None"
    and "0 < epochs"
  shows "fit self trl epochs vl = Inl (AttributeError ''reset'')"
proof -
  from assms(4) obtain n where n: "nat epochs = Suc n" by (cases "nat epochs") auto
  from fit_epoch_no_metrics_reset [OF assms(1-3)] show ?thesis by (simp add: fit_def n)
qed

text \<open>
  Claim C9. After \<^verbatim>\<open>compile\<close> has stored \<^verbatim>\<open>metrics = None\<close>, every call of \<open>fit\<close> with
  at least one epoch raises. When a loss and an optimizer are configured, so that
  \<open>train_step\<close> and \<open>validation_step\<close> handle the missing metrics and return only the
  key \<^verbatim>\<open>'Loss'\<close>, both loops of the first epoch run through, and the error is the
  \<^verbatim>\<open>AttributeError\<close> of \<^verbatim>\<open>self.metrics.reset()\<close> on \<^verbatim>\<open>None\<close> at the end of that epoch.
  No epoch is ever completed, whatever the epoch-level history was before it.
\<close>

theorem fit_without_metrics:
  assumes "0 < epochs"
  shows "(\<exists>e. fit_epoch (compile self loss opt None) history_epoch trainloader validationloader = Inl e)
       \<and> (\<exists>e. fit (compile self loss opt None) trainloader epochs validationloader = Inl e)
       \<and> (loss \<noteq> None \<and> opt \<noteq> None \<longrightarrow>
            (\<exists>l self'. train_step (compile self loss opt None) batch = Inr ([(''Loss'', l)], self'))
          \<and> (\<exists>l self'. validation_step (compile self loss opt None) batch = Inr ([(''Loss'', l)], self'))
          \<and> fit_epoch (compile self loss opt None) [] trainloader validationloader =
              Inl (AttributeError ''reset'')
          \<and> fit (compile self loss opt None) trainloader epochs validationloader =
              Inl (AttributeError ''reset''))"
proof (intro conjI impI)
  have m: "metrics (compile self loss opt None) = None" by (simp add: compile_def)
  show "\<exists>e. fit_epoch (compile self loss opt None) history_epoch trainloader validationloader = Inl e"
    using m by (rule fit_epoch_no_metrics)
  show "\<exists>e. fit (compile self loss opt None) trainloader epochs validationloader = Inl e"
    using m assms by (rule fit_no_metrics)
  assume c: "loss \<noteq> None \<and> opt \<noteq> None"
  then have l: "loss_fn (compile self loss opt None) \<noteq> None"
    and  ob: "optimizer (compile self loss opt None) \<noteq> None"
    by (simp_all add: compile_def)
  obtain inputs labels where b: "batch = (inputs, labels)" by (cases batch)
  show "\<exists>l self'. train_step (compile self loss opt None) batch = Inr ([(''Loss'', l)], self')"
    using m l ob unfolding b train_step_unfold by (auto split: option.splits)
  show "\<exists>l self'. validation_step (compile self loss opt None) batch = Inr ([(''Loss'', l)], self')"
    using m l unfolding b validation_step_unfold by (auto split: option.splits)
  show "fit_epoch (compile self loss opt None) [] trainloader validationloader =
              Inl (AttributeError ''reset'')"
    using m l ob by (rule fit_epoch_no_metrics_reset)
  show "fit (compile self loss opt None) trainloader epochs validationloader =
              Inl (AttributeError ''reset'')"
    using m l ob assms by (rule fit_no_metrics_reset)
qed

theorem fit_without_metrics_witness:
  "(0::int) < 1 \<and> Some abs_loss \<noteq> None \<and> Some count_steps \<noteq> None
   \<and> fit plain_module [(1, 0), (2, 0)] 1 (Some [(5, 5)]) = Inl (AttributeError ''reset'')"
  using fit_without_metrics [of 1 bare_module "Some abs_loss" "Some count_steps" "[]"
      "[(1, 0), (2, 0)]" "Some [(5, 5)]" "(1, 0)"]
  by (simp add: plain_module_def)

lemma three_batches_no_metrics:
  "returned (train_batches (plain_module\<lparr>training := True\<rparr>) [] [(1, 0), (2, 0), (3, 0)]) =
     Inr [(''Loss'', [1, 2, 3])]"
  by (simp add: returned_def plain_module_def compile_def bare_module_def log_dict_def
      abs_loss_def identity_net_def)

lemma fit_three_batches_no_metrics:
  "fit plain_module [(1, 0), (2, 0), (3, 0)] 2 None = Inl (AttributeError ''reset'')"
  by (rule fit_no_metrics_reset) (simp_all add: plain_module_def compile_def)

text \<open>
  Claim C3 says that \<open>fit\<close> with two epochs over three batches whose training steps
  return \<^verbatim>\<open>{"Loss": 1}\<close>, \<^verbatim>\<open>{"Loss": 2}\<close>, \<^verbatim>\<open>{"Loss": 3}\<close>, with no validation source,
  returns a history whose \<^verbatim>\<open>"Loss"\<close> series is \<^verbatim>\<open>[2.0, 2.0]\<close>. On \<open>plain_module\<close>, which
  is compiled with the default \<^verbatim>\<open>metrics=None\<close>, the training loop of the first epoch
  logs exactly these three results, and then \<^verbatim>\<open>self.metrics.reset()\<close> raises, so
  no history is returned.
\<close>

theorem fit_three_batches_raises:
  "returned (train_batches (plain_module\<lparr>training := True\<rparr>) [] [(1, 0), (2, 0), (3, 0)]) =
     Inr [(''Loss'', [1, 2, 3])]
   \<and> fit plain_module [(1, 0), (2, 0), (3, 0)] 2 None = Inl (AttributeError ''reset'')"
  using three_batches_no_metrics fit_three_batches_no_metrics by (rule conjI)

text \<open>
  With a metrics object that has \<^verbatim>\<open>reset()\<close> and reports no metric, the same call
  returns what the claim describes.
\<close>

lemma fit_three_batches_quiet:
  "returned (fit quiet_module [(1, 0), (2, 0), (3, 0)] 2 None) = Inr [(''Loss'', [2, 2])]"
  by (simp add: returned_def fit_def fit_epoch_def quiet_module_def compile_def bare_module_def
      no_metric_def no_rate_def dict_of_items_def metrics_reset_def log_dict_def mean_def
      py_sum_def abs_loss_def identity_net_def numeral_2_eq_2)

section \<open>Keys and series of a logged history\<close>

lemma keys_log_item:
  "fst ` set (log_item prefix self (name, value)) = insert (prefix @ name) (fst ` set self)"
  by (simp add: dom_update Let_def split: option.splits)

lemma keys_log_dict:
  "fst ` set (log_dict self data prefix) = fst ` set self \<union> (\<lambda>name. prefix @ name) ` fst ` set data"
  unfolding log_dict_def
proof (induction data arbitrary: self)
  case Nil
  then show ?case by simp
next
  case (Cons entry data)
  obtain name v where entry: "entry = (name, v)" by (cases entry)
  show ?case
    unfolding foldl_Cons Cons.IH entry keys_log_item by auto
qed

lemma set_update_subset: "set (AList.update key v al) \<subseteq> insert (key, v) (set al)"
  by (induction al) auto

lemma logged_history_update:
  assumes "logged_history self" and "vs \<noteq> []"
  shows "logged_history (AList.update key vs self)"
proof -
  have "values \<noteq> []" if "(name, values) \<in> set (AList.update key vs self)" for name "values"
  proof -
    from that set_update_subset [of key vs self]
    have "(name, values) = (key, vs) \<or> (name, values) \<in> set self" by auto
    with assms show ?thesis by (auto simp: logged_history_def)
  qed
  with assms(1) show ?thesis
    by (auto simp: logged_history_def distinct_update)
qed

lemma logged_history_log_item:
  assumes "logged_history self"
  shows "logged_history (log_item prefix self (name, value))"
  using assms by (simp add: Let_def logged_history_update split: option.splits)

lemma logged_history_log_dict:
  "logged_history self \<Longrightarrow> logged_history (log_dict self data prefix)"
  unfolding log_dict_def
proof (induction data arbitrary: self)
  case Nil
  then show ?case by simp
next
  case (Cons entry data)
  obtain name v where entry: "entry = (name, v)" by (cases entry)
  show ?case
    unfolding foldl_Cons entry
    by (rule Cons.IH) (rule logged_history_log_item [OF Cons.prems])
qed

lemma logged_history_empty: "logged_history []"
  by (simp add: logged_history_def)

lemma aggregate_logged_history:
  assumes "logged_history self"
  shows "\<exists>agg_data. aggregate self mean = Inr agg_data \<and> map fst agg_data = map fst self"
proof -
  from assms have "\<forall>(name, values) \<in> set self. values \<noteq> []"
    by (simp add: logged_history_def)
  then have "aggregate self mean =
      Inr (map (\<lambda>(name, values). (name, sum_list values / of_nat (length values))) self)"
    by (rule aggregate_mean_nonempty)
  moreover have "map fst (map (\<lambda>(name, values). (name, sum_list values / of_nat (length values))) self)
      = map fst self"
    by (simp add: case_prod_beta)
  ultimately show ?thesis by blast
qed

lemma length_logged_distinct:
  assumes "distinct (map fst data)"
  shows "length (logged data prefix key) =
           (if key \<in> (\<lambda>name. prefix @ name) ` fst ` set data then 1 else 0)"
  using assms
proof (induction data)
  case Nil
  then show ?case by (simp add: logged_def)
next
  case (Cons entry data)
  obtain name v where entry: "entry = (name, v)" by (cases entry)
  from Cons.prems have fresh: "name \<notin> fst ` set data" and d: "distinct (map fst data)"
    by (simp_all add: entry)
  have ih: "length (logged data prefix key) =
           (if key \<in> (\<lambda>name. prefix @ name) ` fst ` set data then 1 else 0)"
    by (rule Cons.IH [OF d])
  show ?case
  proof (cases "prefix @ name = key")
    case True
    with fresh have "key \<notin> (\<lambda>name. prefix @ name) ` fst ` set data" by auto
    with ih True show ?thesis by (simp add: entry logged_def)
  next
    case False
    with ih show ?thesis by (auto simp: entry logged_def)
  qed
qed

lemma distinct_log_dict:
  "distinct (map fst self) \<Longrightarrow> distinct (map fst (log_dict self data prefix))"
  unfolding log_dict_def
proof (induction data arbitrary: self)
  case Nil
  then show ?case by simp
next
  case (Cons entry data)
  obtain name v where entry: "entry = (name, v)" by (cases entry)
  show ?case
    unfolding foldl_Cons entry
    by (rule Cons.IH) (simp add: Let_def distinct_update Cons.prems split: option.splits)
qed

lemma epoch_history_log_dict:
  assumes he: "epoch_history self n keys"
    and d: "distinct (map fst agg_data)" and k: "fst ` set agg_data = keys"
  shows "epoch_history (log_dict self agg_data '''') (Suc n) keys"
proof -
  let ?h = "log_dict self agg_data ''''"
  from he have dist: "distinct (map fst self)"
    and len: "\<forall>(name, values) \<in> set self. length values = n"
    and keys: "fst ` set self = (if n = 0 then {} else keys)"
    by (simp_all add: epoch_history_def)
  have d': "distinct (map fst ?h)" using dist by (rule distinct_log_dict)
  have k': "fst ` set ?h = keys"
    unfolding keys_log_dict keys k by auto
  have series_len: "length (series self key) = n" if "key \<in> keys" for key
  proof (cases "n = 0")
    case True
    with keys have "self = []" by simp
    with True show ?thesis by (simp add: series_def)
  next
    case False
    with keys that have "key \<in> fst ` set self" by simp
    then obtain vs where in_set: "(key, vs) \<in> set self" by auto
    with dist have "map_of self key = Some vs" by simp
    with in_set len show ?thesis by (auto simp: series_def)
  qed
  have "length values = Suc n" if "(name, values) \<in> set ?h" for name "values"
  proof -
    from that k' have nk: "name \<in> keys" by force
    then have one: "length (logged agg_data '''' name) = 1"
      using length_logged_distinct [OF d, of "''''" name] k by simp
    from that d' have "map_of ?h name = Some values" by simp
    with one have "values = series self name @ logged agg_data '''' name"
      by (auto simp: map_of_log_dict split: if_splits)
    with one series_len [OF nk] show ?thesis by simp
  qed
  with d' k' show ?thesis by (auto simp: epoch_history_def)
qed

section \<open>fit with a metrics object\<close>

lemma train_batches_keys:
  assumes "train_batches self hb bs = Inr (hb', self')" and "step_names self names"
  shows "fst ` set hb' = fst ` set hb \<union> (if bs = [] then {} else names)
         \<and> (logged_history hb \<longrightarrow> logged_history hb')"
  using assms
proof (induction bs arbitrary: self hb)
  case Nil
  then show ?case by simp
next
  case (Cons b bs)
  from Cons.prems(1) obtain r s1 where step: "train_step self b = Inr (r, s1)"
    and rest: "train_batches s1 (log_dict hb r '''') bs = Inr (hb', self')"
    by (auto split: sum.splits)
  from train_step_keys [OF step Cons.prems(2)] have r: "fst ` set r = names" by simp
  from train_step_fields [OF step, of names] Cons.prems(2) have "step_names s1 names" by simp
  from Cons.IH [OF rest this] r show ?case
    by (auto simp: keys_log_dict logged_history_log_dict)
qed

lemma validation_batches_keys:
  assumes "validation_batches self hb bs = Inr (hb', self')" and "step_names self names"
  shows "fst ` set hb' = fst ` set hb \<union> (if bs = [] then {} else (\<lambda>name. ''Val_'' @ name) ` names)
         \<and> (logged_history hb \<longrightarrow> logged_history hb')"
  using assms
proof (induction bs arbitrary: self hb)
  case Nil
  then show ?case by simp
next
  case (Cons b bs)
  from Cons.prems(1) obtain r s1 where step: "validation_step self b = Inr (r, s1)"
    and rest: "validation_batches s1 (log_dict hb r ''Val_'') bs = Inr (hb', self')"
    by (auto split: sum.splits)
  from validation_step_keys [OF step Cons.prems(2)] have r: "fst ` set r = names" by simp
  from validation_step_fields [OF step, of names] Cons.prems(2) have "step_names s1 names" by simp
  from Cons.IH [OF rest this] r show ?case
    by (auto simp: keys_log_dict logged_history_log_dict)
qed

lemma metrics_reset_configured:
  assumes "configured self" and "step_names self names"
  shows "\<exists>self'. metrics_reset self = Inr self' \<and> configured self' \<and> step_names self' names"
  using assms by (auto simp: metrics_reset_def configured_def step_names_def)

lemma configured_mode: "configured (self\<lparr>training := b\<rparr>) = configured self"
  by (simp add: configured_def)

lemma fit_epoch_configured:
  assumes c: "configured self" and s: "step_names self names"
    and he: "epoch_history he n (epoch_keys names trl vl)"
  shows "\<exists>he' self'. fit_epoch self he trl vl = Inr (he', self') \<and> configured self'
           \<and> step_names self' names \<and> epoch_history he' (Suc n) (epoch_keys names trl vl)"
proof -
  let ?s0 = "self\<lparr>training := True\<rparr>"
  from c have "loss_fn ?s0 \<noteq> None" and "optimizer ?s0 \<noteq> None" by (simp_all add: configured_def)
  from train_batches_returns [OF this, of "[]" trl]
  obtain hb s1 where t: "train_batches ?s0 [] trl = Inr (hb, s1)" by blast
  have s0: "step_names ?s0 names" using s by (simp add: step_names_mode)
  from train_batches_fields [OF t, of names] c s0
  have c1: "configured s1" and s1: "step_names s1 names" by (simp_all add: configured_def)
  from train_batches_keys [OF t s0]
  have k1: "fst ` set hb = (if trl = [] then {} else names)" and l1: "logged_history hb"
    by (simp_all add: logged_history_empty)
  have "\<exists>hb2 s2. (case vl of None \<Rightarrow> Inr (hb, s1)
                    | Some v \<Rightarrow> validation_batches (s1\<lparr>training := False\<rparr>) hb v) = Inr (hb2, s2)
          \<and> configured s2 \<and> step_names s2 names \<and> logged_history hb2
          \<and> fst ` set hb2 = epoch_keys names trl vl"
  proof (cases vl)
    case None
    with c1 s1 l1 k1 show ?thesis by (simp add: epoch_keys_def)
  next
    case (Some v)
    let ?s1 = "s1\<lparr>training := False\<rparr>"
    from c1 have "loss_fn ?s1 \<noteq> None" by (simp add: configured_def)
    from validation_batches_returns [OF this, of hb v]
    obtain hb2 s2 where vb: "validation_batches ?s1 hb v = Inr (hb2, s2)" by blast
    have s1': "step_names ?s1 names" using s1 by (simp add: step_names_mode)
    from validation_batches_fields [OF vb, of names] c1 s1'
    have "configured s2" and "step_names s2 names" by (simp_all add: configured_def)
    moreover from validation_batches_keys [OF vb s1'] l1 k1
    have "logged_history hb2" and "fst ` set hb2 = epoch_keys names trl vl"
      by (simp_all add: epoch_keys_def Some)
    ultimately show ?thesis using Some vb by simp
  qed
  then obtain hb2 s2 where v: "(case vl of None \<Rightarrow> Inr (hb, s1)
                    | Some v \<Rightarrow> validation_batches (s1\<lparr>training := False\<rparr>) hb v) = Inr (hb2, s2)"
    and c2: "configured s2" and s2: "step_names s2 names" and l2: "logged_history hb2"
    and k2: "fst ` set hb2 = epoch_keys names trl vl"
    by blast
  from metrics_reset_configured [OF c2 s2]
  obtain s3 where m: "metrics_reset s2 = Inr s3" and c3: "configured s3"
    and s3: "step_names s3 names"
    by blast
  from aggregate_logged_history [OF l2]
  obtain agg_data where a: "aggregate hb2 mean = Inr agg_data"
    and ka: "map fst agg_data = map fst hb2"
    by blast
  from l2 ka have da: "distinct (map fst agg_data)" by (simp add: logged_history_def)
  from ka have "set (map fst agg_data) = set (map fst hb2)" by simp
  with k2 have "fst ` set agg_data = epoch_keys names trl vl" by simp
  with he da have "epoch_history (log_dict he agg_data '''') (Suc n) (epoch_keys names trl vl)"
    by (rule epoch_history_log_dict)
  moreover have "fit_epoch self he trl vl = Inr (log_dict he agg_data '''', s3)"
    using t v m a by (simp add: fit_epoch_def)
  ultimately show ?thesis using c3 s3 by blast
qed

lemma fit_epochs_configured:
  assumes "configured self" and "step_names self names"
    and "epoch_history he j (epoch_keys names trl vl)"
  shows "\<exists>he' self'. fit_epochs self he trl n vl = Inr (he', self')
           \<and> epoch_history he' (j + n) (epoch_keys names trl vl)"
  using assms
proof (induction n arbitrary: self he j)
  case 0
  then show ?case by simp
next
  case (Suc n)
  from fit_epoch_configured [OF Suc.prems]
  obtain he1 s1 where e: "fit_epoch self he trl vl = Inr (he1, s1)" and "configured s1"
    and "step_names s1 names" and "epoch_history he1 (Suc j) (epoch_keys names trl vl)"
    by blast
  from Suc.IH [OF this(2-4)] e show ?case by simp
qed

lemma fit_configured:
  assumes "configured self" and "step_names self names"
  shows "\<exists>history self'. fit self trl epochs vl = Inr (history, self')
           \<and> epoch_history history (nat epochs) (epoch_keys names trl vl)"
proof -
  have "epoch_history [] 0 (epoch_keys names trl vl)" by (simp add: epoch_history_def)
  from fit_epochs_configured [OF assms this, of "nat epochs"] show ?thesis
    by (simp add: fit_def)
qed

lemma step_names_Loss: "step_names self names \<Longrightarrow> ''Loss'' \<in> names"
  by (auto simp: step_names_def split: option.splits)

text \<open>
  Claim C7 says that every call of \<open>fit\<close> with a validation source and at least one epoch
  returns a history that holds, for every epoch, the training keys and the
  \<^verbatim>\<open>"Val_"\<close>-prefixed validation keys. As the code stands this needs two provisos.
  A source that yields no batch logs no key: the call evaluated after the theorem has
  a validation source and returns no \<^verbatim>\<open>"Val_"\<close> key. And the call has
  to return at all, for which \<^verbatim>\<open>compile\<close> must have stored a loss, an optimizer and
  a metrics object. The statement proved: for a module so configured whose steps
  return the names \<open>names\<close> (among them \<^verbatim>\<open>"Loss"\<close>), \<open>fit\<close> with a validation source and
  at least one epoch returns a history whose keys are \<open>names\<close> if the training source
  yields a batch, together with the names prefixed by \<^verbatim>\<open>"Val_"\<close> if the validation
  source yields a batch, each key once and with exactly one value per epoch.
\<close>

theorem fit_keys_every_epoch:
  assumes "loss_fn self \<noteq> None" and "optimizer self \<noteq> None" and "metrics self \<noteq> None"
    and "step_names self names" and "0 < epochs"
  shows "\<exists>history self'.
           fit self trainloader epochs (Some validationloader) = Inr (history, self')
           \<and> ''Loss'' \<in> names
           \<and> fst ` set history =
               (if trainloader = [] then {} else names) \<union>
               (if validationloader = [] then {} else (\<lambda>name. ''Val_'' @ name) ` names)
           \<and> distinct (map fst history)
           \<and> (\<forall>(name, values) \<in> set history. length values = nat epochs)"
proof -
  from assms(1-3) have c: "configured self" by (simp add: configured_def)
  from fit_configured [OF c assms(4), of trainloader epochs "Some validationloader"]
  obtain history self'
    where f: "fit self trainloader epochs (Some validationloader) = Inr (history, self')"
      and e: "epoch_history history (nat epochs)
                (epoch_keys names trainloader (Some validationloader))"
    by blast
  from assms(5) have "nat epochs \<noteq> 0" by simp
  with e have "fst ` set history =
               (if trainloader = [] then {} else names) \<union>
               (if validationloader = [] then {} else (\<lambda>name. ''Val_'' @ name) ` names)"
    and "distinct (map fst history)"
    and "\<forall>(name, values) \<in> set history. length values = nat epochs"
    by (simp_all add: epoch_history_def epoch_keys_def)
  with f step_names_Loss [OF assms(4)] show ?thesis by blast
qed

lemma metered_module_fields:
  "loss_fn metered_module \<noteq> None" "optimizer metered_module \<noteq> None"
  "metrics metered_module \<noteq> None"
  by (simp_all add: metered_module_def compile_def)

lemma metered_module_names: "step_names metered_module {''Accuracy'', ''Loss''}"
  by (simp add: step_names_def metered_module_def compile_def accuracy_def hit_rate_def
      insert_commute)

theorem fit_keys_every_epoch_witness:
  "loss_fn metered_module \<noteq> None \<and> optimizer metered_module \<noteq> None
   \<and> metrics metered_module \<noteq> None \<and> step_names metered_module {''Accuracy'', ''Loss''}
   \<and> returned (fit metered_module [(1, 0), (2, 0), (3, 0)] 2 (Some [(1, 1), (2, 0)])) =
       Inr [(''Accuracy'', [0, 0]), (''Loss'', [2, 2]),
            (''Val_Accuracy'', [1 / 2, 1 / 2]), (''Val_Loss'', [1, 1])]"
proof -
  have e: "(0::int) < 2" by simp
  have v: "returned (fit metered_module [(1, 0), (2, 0), (3, 0)] 2 (Some [(1, 1), (2, 0)])) =
       Inr [(''Accuracy'', [0, 0]), (''Loss'', [2, 2]),
            (''Val_Accuracy'', [1 / 2, 1 / 2]), (''Val_Loss'', [1, 1])]"
    by code_simp
  from fit_keys_every_epoch [OF metered_module_fields metered_module_names e,
      of "[(1, 0), (2, 0), (3, 0)]" "[(1, 1), (2, 0)]"]
    metered_module_fields metered_module_names v
  show ?thesis by blast
qed

text \<open>
  The validation source is supplied and empty: the returned history has the training
  keys only.
\<close>

theorem fit_empty_validation_counterexample:
  "returned (fit metered_module [(1, 0)] 1 (Some [])) = Inr [(''Accuracy'', [0]), (''Loss'', [1])]"
  by code_simp

section \<open>fit over no batches\<close>

lemma fit_epoch_no_batches:
  assumes "metrics self \<noteq> None" and "vl = None \<or> vl = Some []"
  shows "\<exists>self'. fit_epoch self he [] vl = Inr (he, self') \<and> metrics self' \<noteq> None"
  using assms
  by (auto simp: fit_epoch_def metrics_reset_def log_dict_def)

lemma fit_epochs_no_batches:
  assumes "metrics self \<noteq> None" and "vl = None \<or> vl = Some []"
  shows "\<exists>self'. fit_epochs self he [] n vl = Inr (he, self')"
  using assms(1)
proof (induction n arbitrary: self)
  case 0
  then show ?case by simp
next
  case (Suc n)
  from fit_epoch_no_batches [OF Suc.prems assms(2), of he]
  obtain s1 where e: "fit_epoch self he [] vl = Inr (he, s1)" and m: "metrics s1 \<noteq> None"
    by blast
  from Suc.IH [OF m] e show ?case by simp
qed

text \<open>
  Claim C6 says that an epoch over sources that yield no batch runs into the
  empty-series failure of \<open>aggregate\<close>. It does not: the batch history of such an epoch
  has no key at all, hence no empty series, and \<open>aggregate\<close> returns the empty mapping.
  The statement proved: when the training source yields no batch and the validation
  source is absent or yields no batch, \<open>aggregate\<close> of the empty batch history returns
  the empty mapping, and \<open>fit\<close> on a module with a metrics object completes every epoch
  and returns the empty history, for any number of epochs.
\<close>

theorem fit_no_batches:
  assumes "metrics self \<noteq> None" and "validationloader = None \<or> validationloader = Some []"
  shows "aggregate [] mean = Inr []
         \<and> (\<exists>self'. fit self [] epochs validationloader = Inr ([], self'))"
  using fit_epochs_no_batches [OF assms, of "[]" "nat epochs"] by (simp add: fit_def)

theorem fit_no_batches_witness:
  "metrics metered_module \<noteq> None \<and> returned (fit metered_module [] 3 (Some [])) = Inr []"
proof -
  have m: "metrics metered_module \<noteq> None" by (simp add: metered_module_def compile_def)
  have v: "Some [] = None \<or> Some ([] :: (rat \<times> rat) list) = Some []" by simp
  from fit_no_batches [OF m v, of 3] m show ?thesis
    by (auto simp: returned_def)
qed

text \<open>
  One epoch over no batches, with no validation source: the epoch completes, and so
  does \<open>fit\<close>.
\<close>

theorem fit_no_batches_counterexample:
  "returned (fit_epoch metered_module [] [] None) = Inr []
   \<and> returned (fit metered_module [] 1 None) = Inr []"
  by code_simp

section \<open>evaluate and its reference\<close>

lemma update_fresh_key: "key \<notin> fst ` set al \<Longrightarrow> AList.update key v al = al @ [(key, v)]"
  by (induction al) auto

lemma log_dict_fresh_keys:
  assumes "distinct (map fst data)"
    and "(\<lambda>name. prefix @ name) ` fst ` set data \<inter> fst ` set self = {}"
  shows "log_dict self data prefix = self @ map (\<lambda>(name, value). (prefix @ name, [value])) data"
  using assms unfolding log_dict_def
proof (induction data arbitrary: self)
  case Nil
  then show ?case by simp
next
  case (Cons entry data)
  obtain name v where entry: "entry = (name, v)" by (cases entry)
  from Cons.prems have fresh: "prefix @ name \<notin> fst ` set self"
    and d: "distinct (map fst data)" and n: "name \<notin> fst ` set data"
    and rest: "(\<lambda>name. prefix @ name) ` fst ` set data \<inter> fst ` set self = {}"
    by (auto simp: entry)
  from fresh have none: "map_of self (prefix @ name) = None"
    by (simp add: map_of_eq_None_iff)
  have item: "log_item prefix self (name, v) = self @ [(prefix @ name, [v])]"
    by (simp add: none update_fresh_key [OF fresh])
  from n have "prefix @ name \<notin> (\<lambda>name. prefix @ name) ` fst ` set data" by auto
  with rest
  have "(\<lambda>name. prefix @ name) ` fst ` set data \<inter> fst ` set (self @ [(prefix @ name, [v])]) = {}"
    by auto
  from Cons.IH [OF d this] show ?case
    unfolding foldl_Cons entry item by simp
qed

lemma log_dict_first:
  assumes "distinct (map fst data)"
  shows "log_dict [] data '''' = map (\<lambda>(name, value). (name, [value])) data"
  using log_dict_fresh_keys [OF assms, of "''''" "[]"] by simp

lemma append_values_log_dict:
  assumes "fst ` set result \<subseteq> fst ` set results"
  shows "append_values (Some results) result = Inr (Some (log_dict results result ''''))"
  using assms unfolding log_dict_def
proof (induction result arbitrary: results)
  case Nil
  then show ?case by simp
next
  case (Cons entry result)
  obtain name v where entry: "entry = (name, v)" by (cases entry)
  from Cons.prems have "name \<in> fst ` set results" by (simp add: entry)
  then obtain vs where vs: "map_of results name = Some vs"
    by (cases "map_of results name") (auto simp: map_of_eq_None_iff)
  have "fst ` set result \<subseteq> fst ` set (AList.update name (vs @ [v]) results)"
    using Cons.prems by (auto simp: dom_update entry)
  from Cons.IH [OF this] show ?case
    by (simp add: entry vs)
qed

lemma evaluate_loop_accumulate:
  assumes "step_names self names" and "fst ` set h = names" and "i \<noteq> 0"
  shows "evaluate_loop self i (Some h) bs =
           (case accumulate_steps self h bs of
              Inl e \<Rightarrow> Inl e
            | Inr (h', self') \<Rightarrow> Inr (Some h', self'))"
  using assms
proof (induction bs arbitrary: self h i)
  case Nil
  then show ?case by simp
next
  case (Cons b bs)
  show ?case
  proof (cases "validation_step self b")
    case (Inl e)
    with Cons.prems(3) show ?thesis by simp
  next
    case (Inr p)
    obtain r s1 where p: "p = (r, s1)" by (cases p)
    note step = Inr [unfolded p]
    from validation_step_keys [OF step Cons.prems(1)] have r: "fst ` set r = names" by simp
    from validation_step_fields [OF step, of names] Cons.prems(1)
    have s1: "step_names s1 names" by simp
    from r Cons.prems(2) have "fst ` set r \<subseteq> fst ` set h" by simp
    then have a: "append_values (Some h) r = Inr (Some (log_dict h r ''''))"
      by (rule append_values_log_dict)
    have k: "fst ` set (log_dict h r '''') = names"
      using r Cons.prems(2) by (auto simp: keys_log_dict)
    have "Suc i \<noteq> 0" by simp
    from Cons.IH [OF s1 k this] step a Cons.prems(3) show ?thesis by simp
  qed
qed

lemma mean_values_aggregate: "mean_values results = aggregate results mean"
  by (induction results rule: mean_values.induct) (simp_all add: mean_def)

lemma evaluate_loop_first:
  assumes "step_names self names"
  shows "evaluate_loop self 0 None (b # bs) =
           (case accumulate_steps self [] (b # bs) of
              Inl e \<Rightarrow> Inl e
            | Inr (h', self') \<Rightarrow> Inr (Some h', self'))"
proof (cases "validation_step self b")
  case (Inl e)
  then show ?thesis by simp
next
  case (Inr p)
  obtain r s1 where p: "p = (r, s1)" by (cases p)
  note step = Inr [unfolded p]
  from validation_step_keys [OF step assms]
  have r: "fst ` set r = names" and d: "distinct (map fst r)" by simp_all
  from validation_step_fields [OF step, of names] assms have s1: "step_names s1 names" by simp
  have first: "map (\<lambda>(name, value). (name, [value])) r = log_dict [] r ''''"
    using log_dict_first [OF d] by simp
  have k: "fst ` set (log_dict [] r '''') = names"
    using r by (auto simp: keys_log_dict)
  have "Suc 0 \<noteq> 0" by simp
  from evaluate_loop_accumulate [OF s1 k this, of bs] step show ?thesis
    by (simp add: first)
qed

text \<open>
  Claim C4 says that for every non-empty sequence of batches \<open>evaluate\<close> returns the same
  mapping as the reference computation, which logs every step result into a fresh
  history with no prefix and aggregates it with the default mean. \<open>evaluate\<close> keeps its
  own dict of lists, bound in the first iteration and appended to by name afterwards,
  and that differs from a history when a later step result has a name that the first
  one lacks: the evaluation after the theorem raises \<^verbatim>\<open>KeyError\<close> where the reference
  opens a new series. The statement proved: for every non-empty sequence of batches
  whose step results all carry the same set of names, as the specification requires of
  a run and as holds by itself without a metrics object, \<open>evaluate\<close> and the reference
  \<open>evaluate_reference\<close> return the same result: the same mapping and module, or the same
  error of a step. Batches with the losses 2 and 4 give \<^verbatim>\<open>{"Loss": 3.0}\<close>.
\<close>

theorem evaluate_refines_reference:
  assumes "dataloader \<noteq> []" and "step_names self names"
  shows "evaluate self dataloader = evaluate_reference self dataloader"
proof -
  from assms(1) obtain b bs where dl: "dataloader = b # bs" by (cases dataloader) auto
  from assms(2) have "step_names (self\<lparr>training := False\<rparr>) names"
    by (simp add: step_names_mode)
  from evaluate_loop_first [OF this, of b bs] show ?thesis
    unfolding evaluate_def evaluate_reference_def dl
    by (simp add: mean_values_aggregate split: sum.splits prod.splits)
qed

lemma plain_module_names: "step_names plain_module {''Loss''}"
  by (simp add: step_names_def plain_module_def compile_def)

theorem evaluate_refines_reference_witness:
  "[(2, 0), (4, 0)] \<noteq> ([] :: (rat \<times> rat) list) \<and> step_names plain_module {''Loss''}
   \<and> evaluate plain_module [(2, 0), (4, 0)] = evaluate_reference plain_module [(2, 0), (4, 0)]
   \<and> returned (evaluate plain_module [(2, 0), (4, 0)]) = Inr [(''Loss'', 3)]"
proof -
  have n: "[(2, 0), (4, 0)] \<noteq> ([] :: (rat \<times> rat) list)" by simp
  have v: "returned (evaluate plain_module [(2, 0), (4, 0)]) = Inr [(''Loss'', 3)]"
    by code_simp
  from evaluate_refines_reference [OF n plain_module_names] n plain_module_names v
  show ?thesis by blast
qed

text \<open>
  The second step result of \<open>uneven_module\<close> on these two batches has the name
  \<^verbatim>\<open>"Accuracy"\<close>, which the first lacks: \<open>evaluate\<close> raises, the reference returns.
\<close>

theorem evaluate_uneven_names_counterexample:
  "returned (evaluate uneven_module [(1, 0), (2, 2)]) = Inl (KeyError ''Accuracy'')
   \<and> returned (evaluate_reference uneven_module [(1, 0), (2, 2)]) =
       Inr [(''Loss'', 1 / 2), (''Accuracy'', 1)]"
  by code_simp

text \<open>
  The sequence of batches has to be non-empty as well: on no batch the reference
  returns the empty mapping, where \<open>evaluate\<close> raises.
\<close>

lemma evaluate_reference_no_batches: "returned (evaluate_reference self []) = Inr []"
  by (simp add: evaluate_reference_def returned_def)

end
